theory Spec2Isabelle
  imports Main "HOL-Library.Multiset" "HOL-Library.Sublist"
begin

section \<open>Python values used by the PatientPy drivers\<close>

text \<open>
  The two drivers (\<^verbatim>\<open>InstantiateExperimentDriver.py\<close> and
  \<^verbatim>\<open>assemble_feature_matrix.py\<close>) are embedded function by function.
  Every exception the source can raise is a value of \<open>error\<close>; a function that can
  raise returns \<open>error + 'a\<close> with \<open>Inl\<close> for the exception.
\<close>

datatype error =
    NameError
  | ValueError
  | IndexError
  | KeyError
  | FileNotFoundError
  | AttributeError
  | TypeError

subsection \<open>Strings\<close>

text \<open>
  A Python \<^verbatim>\<open>str\<close> is a \<open>string\<close>; one \<open>char\<close> stands for one code point
  below 256. \<open>whitespace\<close> lists the code points below 256 for which
  \<^verbatim>\<open>str.isspace\<close> holds; \<^verbatim>\<open>rstrip()\<close> without argument removes exactly those
  from the end.
\<close>

definition whitespace :: "char list" where
  "whitespace = [CHR 0x09, CHR 0x0A, CHR 0x0B, CHR 0x0C, CHR 0x0D,
                 CHR 0x1C, CHR 0x1D, CHR 0x1E, CHR 0x1F, CHR 0x20, CHR 0x85, CHR 0xA0]"

definition isspace :: "char \<Rightarrow> bool" where
  "isspace c = (c \<in> set whitespace)"

definition rstrip :: "string \<Rightarrow> string" where
  "rstrip s = rev (dropWhile isspace (rev s))"

text \<open>\<^verbatim>\<open>s.split(sep)\<close> for a one-character separator: never an empty list.\<close>

fun split :: "char \<Rightarrow> string \<Rightarrow> string list" where
  "split sep [] = [[]]"
| "split sep (c # cs) =
     (if c = sep then [] # split sep cs
      else (case split sep cs of
              [] \<Rightarrow> [[c]]
            | w # ws \<Rightarrow> (c # w) # ws))"

text \<open>\<^verbatim>\<open>sep.join(xs)\<close>.\<close>

fun join :: "string \<Rightarrow> string list \<Rightarrow> string" where
  "join sep [] = []"
| "join sep [x] = x"
| "join sep (x # y # ys) = x @ sep @ join sep (y # ys)"

text \<open>\<^verbatim>\<open>sub in s\<close> on strings: \<open>sub\<close> occurs as a contiguous piece of \<open>s\<close>.\<close>

fun contains :: "string \<Rightarrow> string \<Rightarrow> bool" where
  "contains sub [] = (sub = [])"
| "contains sub (c # cs) = (prefix sub (c # cs) \<or> contains sub cs)"

subsection \<open>Lists and dictionaries\<close>

text \<open>\<^verbatim>\<open>xs.index(x)\<close>: the first position of \<open>x\<close>, \<^verbatim>\<open>ValueError\<close> when absent.\<close>

fun list_index :: "'a list \<Rightarrow> 'a \<Rightarrow> error + nat" where
  "list_index [] x = Inl ValueError"
| "list_index (y # ys) x =
     (if y = x then Inr 0
      else (case list_index ys x of Inl e \<Rightarrow> Inl e | Inr i \<Rightarrow> Inr (Suc i)))"

text \<open>\<^verbatim>\<open>xs[i]\<close> for a non-negative index: \<^verbatim>\<open>IndexError\<close> out of range.\<close>

definition list_get :: "'a list \<Rightarrow> nat \<Rightarrow> error + 'a" where
  "list_get xs i = (if i < length xs then Inr (xs ! i) else Inl IndexError)"

text \<open>
  A \<^verbatim>\<open>dict\<close> is an association list in insertion order with unique keys:
  \<^verbatim>\<open>d[k]\<close> raises \<^verbatim>\<open>KeyError\<close> on a missing key, \<^verbatim>\<open>d[k] = v\<close> overwrites in place
  or appends.
\<close>

type_synonym ('k, 'v) dict = "('k \<times> 'v) list"

definition dict_get :: "('k, 'v) dict \<Rightarrow> 'k \<Rightarrow> error + 'v" where
  "dict_get d k = (case map_of d k of None \<Rightarrow> Inl KeyError | Some v \<Rightarrow> Inr v)"

definition dict_set :: "('k, 'v) dict \<Rightarrow> 'k \<Rightarrow> 'v \<Rightarrow> ('k, 'v) dict" where
  "dict_set d k v =
     (if k \<in> set (map fst d) then map (\<lambda>(k', v'). if k' = k then (k', v) else (k', v')) d
      else d @ [(k, v)])"

definition keys :: "('k, 'v) dict \<Rightarrow> 'k list" where
  "keys d = map fst d"

subsection \<open>Decimal integers\<close>

definition digits :: "char list" where
  "digits = ''0123456789''"

definition is_digit :: "char \<Rightarrow> bool" where
  "is_digit c = (c \<in> set digits)"

definition digit_val :: "char \<Rightarrow> nat" where
  "digit_val c = length (takeWhile (\<lambda>d. d \<noteq> c) digits)"

text \<open>\<^verbatim>\<open>str(n)\<close> for a non-negative integer.\<close>

fun str_nat :: "nat \<Rightarrow> string" where
  "str_nat n = (if n < 10 then [digits ! n] else str_nat (n div 10) @ [digits ! (n mod 10)])"

declare str_nat.simps [simp del]

text \<open>
  \<^verbatim>\<open>int(s)\<close> for a string, base 10: surrounding whitespace is ignored, one sign is
  allowed, and the rest is a non-empty run of decimal digits in which single
  underscores may separate digits. Anything else raises \<^verbatim>\<open>ValueError\<close>. The
  whitespace \<^verbatim>\<open>int\<close> ignores is narrower than that of \<^verbatim>\<open>rstrip\<close>: the separators
  0x1C to 0x1F are not part of it (a digit followed by 0x1F does not parse).
\<close>

definition int_whitespace :: "char list" where
  "int_whitespace = [CHR 0x09, CHR 0x0A, CHR 0x0B, CHR 0x0C, CHR 0x0D, CHR 0x20, CHR 0x85, CHR 0xA0]"

definition int_space :: "char \<Rightarrow> bool" where
  "int_space c = (c \<in> set int_whitespace)"

definition int_strip :: "string \<Rightarrow> string" where
  "int_strip s = dropWhile int_space (rev (dropWhile int_space (rev s)))"

fun int_digits :: "string \<Rightarrow> bool" where
  "int_digits [] = False"
| "int_digits [c] = is_digit c"
| "int_digits (c # d # cs) =
     (is_digit c \<and> (if d = CHR ''_'' then int_digits cs else int_digits (d # cs)))"

definition digits_value :: "string \<Rightarrow> nat" where
  "digits_value s = foldl (\<lambda>a c. 10 * a + digit_val c) 0 (filter (\<lambda>c. c \<noteq> CHR ''_'') s)"

definition py_int :: "string \<Rightarrow> error + int" where
  "py_int s =
     (let t = int_strip s;
          neg = (t \<noteq> [] \<and> hd t = CHR ''-'');
          body = (if t \<noteq> [] \<and> (hd t = CHR ''-'' \<or> hd t = CHR ''+'') then tl t else t)
      in if int_digits body
         then Inr (if neg then - int (digits_value body) else int (digits_value body))
         else Inl ValueError)"

subsection \<open>Files\<close>

text \<open>
  A text file is the list of lines its iterator yields (each line with its line
  terminator, if any); the file system maps a path to a file. Opening a missing path
  for reading raises.
\<close>

type_synonym text_file = "string list"
type_synonym filesystem = "(string, text_file) dict"

definition open_read :: "filesystem \<Rightarrow> string \<Rightarrow> error + text_file" where
  "open_read fs path = (case map_of fs path of None \<Rightarrow> Inl FileNotFoundError | Some f \<Rightarrow> Inr f)"

text \<open>\<^verbatim>\<open>load_list\<close> (lines 58-65): the right-stripped, non-empty lines of a file.\<close>

definition load_list :: "filesystem \<Rightarrow> string \<Rightarrow> error + string list" where
  "load_list fs file_name =
     (case open_read fs file_name of
        Inl e \<Rightarrow> Inl e
      | Inr f \<Rightarrow> Inr (filter (\<lambda>line. line \<noteq> []) (map rstrip f)))"

section \<open>Sample Indexer\<close>

subsection \<open>\<^verbatim>\<open>load_target_present_rows\<close> (lines 155-173)\<close>

text \<open>
  The loop over the lines of the item-presence file. Its state is the source's:
  \<open>first_line\<close>, \<open>target_name_file_column_idx\<close> and \<open>target_present_rows\<close>.
  An empty line (after \<^verbatim>\<open>rstrip\<close>) executes \<^verbatim>\<open>break\<close>.
\<close>

fun present_rows_loop ::
  "string \<Rightarrow> text_file \<Rightarrow> bool \<Rightarrow> nat \<Rightarrow> string list \<Rightarrow> error + string list" where
  "present_rows_loop target_name [] first_line target_name_file_column_idx target_present_rows =
     Inr target_present_rows"
| "present_rows_loop target_name (full_line # f) first_line target_name_file_column_idx
       target_present_rows =
     (let line = rstrip full_line in
      if line = [] then Inr target_present_rows
      else
        let split_line = split CHR '','' (rstrip full_line) in
        if first_line then
          (case list_index split_line target_name of
             Inl e \<Rightarrow> Inl e
           | Inr i \<Rightarrow> present_rows_loop target_name f False i target_present_rows)
        else
          (case list_get split_line target_name_file_column_idx of
             Inl e \<Rightarrow> Inl e
           | Inr cell \<Rightarrow>
              (case py_int cell of
                 Inl e \<Rightarrow> Inl e
               | Inr v \<Rightarrow>
                  if v \<noteq> 0 then
                    (case list_get split_line 1 of
                       Inl e \<Rightarrow> Inl e
                     | Inr case_id \<Rightarrow>
                         present_rows_loop target_name f False target_name_file_column_idx
                           (target_present_rows @ [case_id]))
                  else present_rows_loop target_name f False target_name_file_column_idx
                         target_present_rows)))"

definition load_target_present_rows ::
  "filesystem \<Rightarrow> string \<Rightarrow> string \<Rightarrow> error + string list" where
  "load_target_present_rows fs item_present_file target_name =
     (case open_read fs item_present_file of
        Inl e \<Rightarrow> Inl e
      | Inr f \<Rightarrow> present_rows_loop target_name f True 0 [])"

subsection \<open>The loop over the feature-matrix case order (lines 188-203)\<close>

text \<open>
  The lists the source fills for one target. \<open>count_v\<close> is the source's \<open>count\<close>.
\<close>

record fold_lists =
  samples_full_fold_type :: "string list"
  target_full_fold_type :: "string list"
  feat_targ_full_fold_type :: "string list"
  sam_folds :: "string list list"
  tar_folds :: "string list list"
  feat_folds :: "string list list"
  count_v :: nat

definition initial_lists :: fold_lists where
  "initial_lists =
     \<lparr>samples_full_fold_type = [], target_full_fold_type = [], feat_targ_full_fold_type = [],
      sam_folds = replicate 5 [], tar_folds = replicate 5 [], feat_folds = replicate 5 [],
      count_v = 0\<rparr>"

text \<open>\<^verbatim>\<open>folds[k].append(x)\<close>; the source only calls it with \<open>k = count % 5\<close>.\<close>

definition fold_append :: "string list list \<Rightarrow> nat \<Rightarrow> string \<Rightarrow> string list list" where
  "fold_append folds k x = folds[k := folds ! k @ [x]]"

fun case_rows_loop ::
  "string list \<Rightarrow> string list \<Rightarrow> (nat \<times> string) list \<Rightarrow> fold_lists \<Rightarrow> error + fold_lists" where
  "case_rows_loop target_case_rows target_present_rows [] s = Inr s"
| "case_rows_loop target_case_rows target_present_rows ((idx, case_id) # rest) s =
     (if case_id \<in> set target_present_rows then
        (case list_index target_case_rows case_id of
           Inl e \<Rightarrow> Inl e
         | Inr t \<Rightarrow>
             case_rows_loop target_case_rows target_present_rows rest
               (s\<lparr>samples_full_fold_type := samples_full_fold_type s @ [str_nat idx],
                  target_full_fold_type := target_full_fold_type s @ [str_nat t],
                  feat_targ_full_fold_type := feat_targ_full_fold_type s @ [case_id],
                  sam_folds := fold_append (sam_folds s) (count_v s mod 5) (str_nat idx),
                  tar_folds := fold_append (tar_folds s) (count_v s mod 5) (str_nat t),
                  feat_folds := fold_append (feat_folds s) (count_v s mod 5) case_id,
                  count_v := count_v s + 1\<rparr>))
      else case_rows_loop target_case_rows target_present_rows rest s)"

definition index_cases :: "string list \<Rightarrow> string list \<Rightarrow> string list \<Rightarrow> error + fold_lists" where
  "index_cases case_order_rows target_case_rows target_present_rows =
     case_rows_loop target_case_rows target_present_rows (enumerate 0 case_order_rows)
       initial_lists"

subsection \<open>Writing the records of one target (lines 205-214)\<close>

definition record_line :: "string \<Rightarrow> nat \<Rightarrow> string \<Rightarrow> string \<Rightarrow> string list \<Rightarrow> string" where
  "record_line matrix_name t_idx target_name fold_type entries =
     matrix_name @ [CHR 0x09] @ str_nat t_idx @ [CHR 0x09] @ target_name @ [CHR 0x09]
       @ fold_type @ [CHR 0x09] @ join [CHR 0x09] entries @ [CHR 0x0A]"

text \<open>The three output files, each as the list of strings written to it so far.\<close>

record sample_files =
  feature_samples_outfile :: "string list"
  target_samples_outfile :: "string list"
  feat_and_targ_samples_outfile :: "string list"

definition target_lines ::
  "string \<Rightarrow> nat \<Rightarrow> string \<Rightarrow> string list \<Rightarrow> string list list \<Rightarrow> string list" where
  "target_lines matrix_name t_idx target_name full folds =
     record_line matrix_name t_idx target_name ''full'' full
       # map (\<lambda>f_idx. record_line matrix_name t_idx target_name (str_nat f_idx) (folds ! f_idx))
           [0..<5]"

definition write_target ::
  "(string, string) dict \<Rightarrow> nat \<Rightarrow> string \<Rightarrow> fold_lists \<Rightarrow> sample_files \<Rightarrow> error + sample_files"
  where
  "write_target params t_idx target_name s out =
     (case dict_get params ''feature_matrix_name'' of
        Inl e \<Rightarrow> Inl e
      | Inr feature_matrix_name \<Rightarrow>
     (case dict_get params ''target_matrix_name'' of
        Inl e \<Rightarrow> Inl e
      | Inr target_matrix_name \<Rightarrow>
          Inr \<lparr>feature_samples_outfile = feature_samples_outfile out
                 @ target_lines feature_matrix_name t_idx target_name
                     (samples_full_fold_type s) (sam_folds s),
               target_samples_outfile = target_samples_outfile out
                 @ target_lines target_matrix_name t_idx target_name
                     (target_full_fold_type s) (tar_folds s),
               feat_and_targ_samples_outfile = feat_and_targ_samples_outfile out
                 @ target_lines target_matrix_name t_idx target_name
                     (feat_targ_full_fold_type s) (feat_folds s)\<rparr>))"

subsection \<open>\<^verbatim>\<open>determine_feature_matrix_and_target_matrix_rows\<close> (lines 141-220)\<close>

text \<open>
  A name is looked up among the names bound where it is used; an unbound name raises
  \<^verbatim>\<open>NameError\<close>. Inside the function the only name bound to a parameter dictionary
  is its argument \<^verbatim>\<open>params\<close> (the module binds no \<^verbatim>\<open>parmas\<close>), and line 187
  reads \<^verbatim>\<open>parmas['item_present_file']\<close>.
\<close>

definition lookup_name :: "(string \<times> 'v) list \<Rightarrow> string \<Rightarrow> error + 'v" where
  "lookup_name scope name = (case map_of scope name of None \<Rightarrow> Inl NameError | Some v \<Rightarrow> Inr v)"

text \<open>
  Lines 188-214 for one target, once \<open>target_present_rows\<close> is known: fill the lists,
  then write the six records to each file. An exception in the loop leaves nothing
  written for the target.
\<close>

definition target_records ::
  "(string, string) dict \<Rightarrow> string list \<Rightarrow> string list \<Rightarrow> nat \<Rightarrow> string \<Rightarrow> string list \<Rightarrow>
   sample_files \<Rightarrow> error + sample_files" where
  "target_records params case_order_rows target_case_rows t_idx target_name target_present_rows out =
     (case index_cases case_order_rows target_case_rows target_present_rows of
        Inl e \<Rightarrow> Inl e
      | Inr s \<Rightarrow> write_target params t_idx target_name s out)"

fun targets_loop ::
  "(string, string) dict \<Rightarrow> filesystem \<Rightarrow> string list \<Rightarrow> string list \<Rightarrow>
   (nat \<times> string) list \<Rightarrow> sample_files \<Rightarrow> error + sample_files" where
  "targets_loop params fs case_order_rows target_case_rows [] out = Inr out"
| "targets_loop params fs case_order_rows target_case_rows ((t_idx, target_name) # rest) out =
     (case lookup_name [(''params'', params)] ''parmas'' of
        Inl e \<Rightarrow> Inl e
      | Inr parmas \<Rightarrow>
     (case dict_get parmas ''item_present_file'' of
        Inl e \<Rightarrow> Inl e
      | Inr item_present_file \<Rightarrow>
     (case load_target_present_rows fs item_present_file target_name of
        Inl e \<Rightarrow> Inl e
      | Inr target_present_rows \<Rightarrow>
     (case target_records params case_order_rows target_case_rows t_idx target_name
             target_present_rows out of
        Inl e \<Rightarrow> Inl e
      | Inr out' \<Rightarrow> targets_loop params fs case_order_rows target_case_rows rest out'))))"

definition load_param_list :: "(string, string) dict \<Rightarrow> filesystem \<Rightarrow> string \<Rightarrow> error + string list"
  where
  "load_param_list params fs key =
     (case dict_get params key of Inl e \<Rightarrow> Inl e | Inr file_name \<Rightarrow> load_list fs file_name)"

definition header_files :: sample_files where
  "header_files =
     \<lparr>feature_samples_outfile =
        [''#feature_matrix_name, target_id, target_name, fold_type, row_indices'' @ [CHR 0x0A]],
      target_samples_outfile =
        [''#target_matrix_name, target_id, target_name, fold_type, row_indices'' @ [CHR 0x0A]],
      feat_and_targ_samples_outfile =
        [''#target_matrix_name, target_id, target_name, fold_type, case_ids'' @ [CHR 0x0A]]\<rparr>"

definition determine_feature_matrix_and_target_matrix_rows ::
  "(string, string) dict \<Rightarrow> filesystem \<Rightarrow> error + sample_files" where
  "determine_feature_matrix_and_target_matrix_rows params fs =
     (case load_param_list params fs ''case_order_rows_file'' of
        Inl e \<Rightarrow> Inl e
      | Inr case_order_rows \<Rightarrow>
     (case load_param_list params fs ''target_case_rows_file'' of
        Inl e \<Rightarrow> Inl e
      | Inr target_case_rows \<Rightarrow>
     (case load_param_list params fs ''target_feature_columns_file'' of
        Inl e \<Rightarrow> Inl e
      | Inr target_feature_columns \<Rightarrow>
     (case dict_get params ''feature_samples_outfile'' of
        Inl e \<Rightarrow> Inl e
      | Inr _ \<Rightarrow>
     (case dict_get params ''target_samples_outfile'' of
        Inl e \<Rightarrow> Inl e
      | Inr _ \<Rightarrow>
     (case dict_get params ''feat_targ_samples_outfile'' of
        Inl e \<Rightarrow> Inl e
      | Inr _ \<Rightarrow>
          targets_loop params fs case_order_rows target_case_rows
            (enumerate 0 target_feature_columns) header_files))))))"

section \<open>Feature selection and model training\<close>

subsection \<open>\<^verbatim>\<open>load_samples\<close> (lines 227-237 and 320-330)\<close>

text \<open>\<^verbatim>\<open>[int(x) for x in xs]\<close>: the first element that does not parse raises.\<close>

fun int_list :: "string list \<Rightarrow> error + int list" where
  "int_list [] = Inr []"
| "int_list (x # xs) =
     (case py_int x of
        Inl e \<Rightarrow> Inl e
      | Inr v \<Rightarrow> (case int_list xs of Inl e \<Rightarrow> Inl e | Inr vs \<Rightarrow> Inr (v # vs)))"

text \<open>
  One record per non-empty line that does not start with \<open>#\<close>; the key is
  \<^verbatim>\<open>s_line[1] + '_' + s_line[3]\<close>. The right-hand side of the assignment is evaluated
  before the key.
\<close>

fun load_samples_loop ::
  "text_file \<Rightarrow> (string, int list) dict \<Rightarrow> error + (string, int list) dict" where
  "load_samples_loop [] samples_dict = Inr samples_dict"
| "load_samples_loop (full_line # f) samples_dict =
     (let line = rstrip full_line in
      if line \<noteq> [] then
        if hd line = CHR ''#'' then load_samples_loop f samples_dict
        else
          let s_line = split CHR 0x09 line in
          (case int_list (drop 4 s_line) of
             Inl e \<Rightarrow> Inl e
           | Inr row_indices \<Rightarrow>
          (case list_get s_line 1 of
             Inl e \<Rightarrow> Inl e
           | Inr target_id \<Rightarrow>
          (case list_get s_line 3 of
             Inl e \<Rightarrow> Inl e
           | Inr fold_type \<Rightarrow>
               load_samples_loop f
                 (dict_set samples_dict (target_id @ ''_'' @ fold_type) row_indices))))
      else load_samples_loop f samples_dict)"

definition load_samples :: "filesystem \<Rightarrow> string \<Rightarrow> error + (string, int list) dict" where
  "load_samples fs file_name =
     (case open_read fs file_name of
        Inl e \<Rightarrow> Inl e
      | Inr f \<Rightarrow> load_samples_loop f [])"

subsection \<open>The inverse sample lists of \<^verbatim>\<open>run_feature_selection\<close> (lines 262-278)\<close>

text \<open>\<^verbatim>\<open>model_key.split('_')[0] + '_full'\<close>: the key of the target's full record.\<close>

definition full_key :: "string \<Rightarrow> string" where
  "full_key model_key = hd (split CHR ''_'' model_key) @ ''_full''"

text \<open>
  The loop \<^verbatim>\<open>for x in curr_all: if x not in samples[model_key]: inverse.append(x)\<close>;
  \<^verbatim>\<open>samples[model_key]\<close> is read once per element.
\<close>

fun inverse_inner ::
  "(string, int list) dict \<Rightarrow> string \<Rightarrow> int list \<Rightarrow> int list \<Rightarrow> error + int list" where
  "inverse_inner samples model_key [] inverse_list = Inr inverse_list"
| "inverse_inner samples model_key (x # curr_all) inverse_list =
     (case dict_get samples model_key of
        Inl e \<Rightarrow> Inl e
      | Inr fold_samples \<Rightarrow>
          if x \<notin> set fold_samples
          then inverse_inner samples model_key curr_all (inverse_list @ [x])
          else inverse_inner samples model_key curr_all inverse_list)"

fun inverse_loop ::
  "(string, int list) dict \<Rightarrow> (string, int list) dict \<Rightarrow> string list \<Rightarrow>
   (string, int list) dict \<times> (string, int list) dict \<Rightarrow>
   error + (string, int list) dict \<times> (string, int list) dict" where
  "inverse_loop feature_samples target_samples [] inverses = Inr inverses"
| "inverse_loop feature_samples target_samples (model_key # model_keys)
       (inverse_feature_samples, inverse_target_samples) =
     (if contains ''_full'' model_key then
        (case dict_get feature_samples model_key of
           Inl e \<Rightarrow> Inl e
         | Inr fv \<Rightarrow>
        (case dict_get target_samples model_key of
           Inl e \<Rightarrow> Inl e
         | Inr tv \<Rightarrow>
             inverse_loop feature_samples target_samples model_keys
               (dict_set inverse_feature_samples model_key fv,
                dict_set inverse_target_samples model_key tv)))
      else
        (case dict_get feature_samples (full_key model_key) of
           Inl e \<Rightarrow> Inl e
         | Inr curr_all_feature_samples \<Rightarrow>
        (case dict_get target_samples (full_key model_key) of
           Inl e \<Rightarrow> Inl e
         | Inr curr_all_target_samples \<Rightarrow>
        (case inverse_inner feature_samples model_key curr_all_feature_samples [] of
           Inl e \<Rightarrow> Inl e
         | Inr inv_f \<Rightarrow>
        (case inverse_inner target_samples model_key curr_all_target_samples [] of
           Inl e \<Rightarrow> Inl e
         | Inr inv_t \<Rightarrow>
             inverse_loop feature_samples target_samples model_keys
               (dict_set inverse_feature_samples model_key inv_f,
                dict_set inverse_target_samples model_key inv_t))))))"

text \<open>\<open>model_keys\<close> are the keys of \<open>target_samples\<close> (line 250).\<close>

definition inverse_samples ::
  "(string, int list) dict \<Rightarrow> (string, int list) dict \<Rightarrow>
   error + (string, int list) dict \<times> (string, int list) dict" where
  "inverse_samples feature_samples target_samples =
     inverse_loop feature_samples target_samples (keys target_samples) ([], [])"

subsection \<open>\<^verbatim>\<open>load_feature_selection_files\<close> (lines 332-348)\<close>

text \<open>
  The loop over the rows of one result file; \<open>imp\<close> is \<open>-m\<close> or \<open>-r\<close>. A row that
  does not split into exactly two parts at \<open>:\<close> fails to unpack.
\<close>

fun selection_rows_loop ::
  "string \<Rightarrow> string list \<Rightarrow> (string, int list) dict \<Rightarrow> error + (string, int list) dict" where
  "selection_rows_loop imp [] feature_dir = Inr feature_dir"
| "selection_rows_loop imp (row # file_rows) feature_dir =
     (case split CHR '':'' row of
        [model_type, str_indices] \<Rightarrow>
          if length str_indices \<noteq> 0 then
            (case int_list (split CHR '','' str_indices) of
               Inl e \<Rightarrow> Inl e
             | Inr indices \<Rightarrow>
                 selection_rows_loop imp file_rows
                   (dict_set feature_dir (model_type @ imp) indices))
          else selection_rows_loop imp file_rows (dict_set feature_dir (model_type @ imp) [0])
      | _ \<Rightarrow> Inl ValueError)"

definition load_feature_selection_files ::
  "filesystem \<Rightarrow> string \<Rightarrow> error + (string, int list) dict" where
  "load_feature_selection_files fs prefilename =
     (case load_list fs (prefilename @ ''-mImp.txt'') of
        Inl e \<Rightarrow> Inl e
      | Inr m_rows \<Rightarrow>
     (case selection_rows_loop ''-m'' m_rows [] of
        Inl e \<Rightarrow> Inl e
      | Inr feature_dir \<Rightarrow>
     (case load_list fs (prefilename @ ''-rImp.txt'') of
        Inl e \<Rightarrow> Inl e
      | Inr r_rows \<Rightarrow> selection_rows_loop ''-r'' r_rows feature_dir)))"

subsection \<open>Choosing the model type in \<^verbatim>\<open>run_three_model_training\<close> (lines 406-446)\<close>

text \<open>
  The mean scores are elements of a linear order (floating-point means that are
  numbers). \<^verbatim>\<open>max(scores)\<close> keeps the first of the largest elements and raises on an
  empty list.
\<close>

fun py_max :: "'a::linorder list \<Rightarrow> error + 'a" where
  "py_max [] = Inl ValueError"
| "py_max (x # xs) = Inr (foldl (\<lambda>max_item item. if max_item < item then item else max_item) x xs)"

text \<open>
  The \<^verbatim>\<open>if best_score == 0 ... elif best_score == 5 ... else\<close> chain. In the last
  branch the source only prints; \<^verbatim>\<open>model_type\<close> is then not bound by this
  iteration.
\<close>

definition model_type_of :: "nat \<Rightarrow> error + string" where
  "model_type_of best_score =
     (if best_score = 0 then Inr ''lr-m''
      else if best_score = 1 then Inr ''sv-m''
      else if best_score = 2 then Inr ''rf-m''
      else if best_score = 3 then Inr ''lr-r''
      else if best_score = 4 then Inr ''sv-r''
      else if best_score = 5 then Inr ''rf-r''
      else Inl NameError)"

text \<open>
  Lines 406-408 and the chain: from the six means, in the order \<open>lr_m\<close>, \<open>sv_m\<close>,
  \<open>rf_m\<close>, \<open>lr_r\<close>, \<open>sv_r\<close>, \<open>rf_r\<close>, the chosen model type, its index and \<open>max_score\<close>.
\<close>

definition select_model ::
  "'a::linorder \<Rightarrow> 'a \<Rightarrow> 'a \<Rightarrow> 'a \<Rightarrow> 'a \<Rightarrow> 'a \<Rightarrow> error + (string \<times> nat \<times> 'a)" where
  "select_model lr_m sv_m rf_m lr_r sv_r rf_r =
     (let scores = [lr_m, sv_m, rf_m, lr_r, sv_r, rf_r] in
      case py_max scores of
        Inl e \<Rightarrow> Inl e
      | Inr max_score \<Rightarrow>
     (case list_index scores max_score of
        Inl e \<Rightarrow> Inl e
      | Inr best_score \<Rightarrow>
     (case model_type_of best_score of
        Inl e \<Rightarrow> Inl e
      | Inr model_type \<Rightarrow> Inr (model_type, best_score, max_score))))"

section \<open>Matrix Assembler (\<^verbatim>\<open>assemble_feature_matrix.py\<close>)\<close>

subsection \<open>Arrays\<close>

text \<open>
  A NumPy array of dimension 0, 1 or 2. \<open>Arr2 c rows\<close> has shape
  \<open>(length rows, c)\<close>; each of its rows has \<open>c\<close> entries. The data variables of the
  source hold the integer \<open>0\<close>, \<^verbatim>\<open>None\<close> or an array.
\<close>

datatype 'a ndarray = Arr0 'a | Arr1 "'a list" | Arr2 nat "'a list list"

datatype 'a pyobj = PyInt int | PyNone | Array "'a ndarray"

fun ndim :: "'a ndarray \<Rightarrow> nat" where
  "ndim (Arr0 x) = 0"
| "ndim (Arr1 xs) = 1"
| "ndim (Arr2 c rows) = 2"

fun shape :: "'a ndarray \<Rightarrow> nat list" where
  "shape (Arr0 x) = []"
| "shape (Arr1 xs) = [length xs]"
| "shape (Arr2 c rows) = [length rows, c]"

text \<open>\<^verbatim>\<open>x.ndim\<close> and \<^verbatim>\<open>x.shape\<close>: an integer and \<^verbatim>\<open>None\<close> have no such attribute.\<close>

fun attr_ndim :: "'a pyobj \<Rightarrow> error + nat" where
  "attr_ndim (Array a) = Inr (ndim a)"
| "attr_ndim _ = Inl AttributeError"

fun attr_shape :: "'a pyobj \<Rightarrow> error + nat list" where
  "attr_shape (Array a) = Inr (shape a)"
| "attr_shape _ = Inl AttributeError"

text \<open>
  \<^verbatim>\<open>np.concatenate((a, b), axis=k)\<close>. The two arrays must have the same dimension,
  at least 1 and more than \<open>k\<close>, and agree on the other axis; every failure is a
  \<^verbatim>\<open>ValueError\<close> (an integer or \<^verbatim>\<open>None\<close> counts as zero-dimensional).
\<close>

fun concatenate :: "'a pyobj \<Rightarrow> 'a pyobj \<Rightarrow> nat \<Rightarrow> error + 'a ndarray" where
  "concatenate (Array (Arr1 xs)) (Array (Arr1 ys)) 0 = Inr (Arr1 (xs @ ys))"
| "concatenate (Array (Arr2 c xs)) (Array (Arr2 d ys)) 0 =
     (if c = d then Inr (Arr2 c (xs @ ys)) else Inl ValueError)"
| "concatenate (Array (Arr2 c xs)) (Array (Arr2 d ys)) (Suc 0) =
     (if length xs = length ys then Inr (Arr2 (c + d) (map2 (@) xs ys)) else Inl ValueError)"
| "concatenate _ _ _ = Inl ValueError"

text \<open>
  The name variables hold the integer \<open>0\<close>, \<^verbatim>\<open>None\<close> or a one-dimensional array of
  strings: the source builds name arrays with \<^verbatim>\<open>np.asarray\<close> from a list of strings
  and joins them along axis 0 only.
\<close>

datatype names = NamesInt int | NamesNone | Names "string list"

fun concatenate_names :: "names \<Rightarrow> names \<Rightarrow> error + names" where
  "concatenate_names (Names xs) (Names ys) = Inr (Names (xs @ ys))"
| "concatenate_names _ _ = Inl ValueError"

fun names_shape :: "names \<Rightarrow> error + nat list" where
  "names_shape (Names xs) = Inr [length xs]"
| "names_shape _ = Inl AttributeError"

subsection \<open>\<^verbatim>\<open>concat\<close> (lines 48-62)\<close>

definition concat_arrays ::
  "nat \<Rightarrow> 'a pyobj \<Rightarrow> names \<Rightarrow> 'a pyobj \<Rightarrow> names \<Rightarrow> error + 'a pyobj \<times> names" where
  "concat_arrays c_idx f_data f_names l_data l_names =
     (if c_idx = 0 then Inr (l_data, l_names)
      else
        (case attr_ndim l_data of
           Inl e \<Rightarrow> Inl e
         | Inr nd \<Rightarrow>
             if nd = 2 then
               (case concatenate f_data l_data 1 of
                  Inl e \<Rightarrow> Inl e
                | Inr d \<Rightarrow>
                   (case concatenate_names f_names l_names of
                      Inl e \<Rightarrow> Inl e
                    | Inr n \<Rightarrow> Inr (Array d, n)))
             else
               (case concatenate f_data l_data 0 of
                  Inl e \<Rightarrow> Inl e
                | Inr d \<Rightarrow>
                   (case concatenate_names f_names l_names of
                      Inl e \<Rightarrow> Inl e
                    | Inr n \<Rightarrow> Inr (Array d, n)))))"

subsection \<open>\<^verbatim>\<open>load_dir\<close> (lines 64-76)\<close>

text \<open>
  What the source reads of one feature type: the file names \<^verbatim>\<open>load_file_list\<close>
  returns, each with the array \<^verbatim>\<open>np.genfromtxt\<close> returns for the file, and the lines
  of the column-name file. \<^verbatim>\<open>load_file_list\<close> and \<^verbatim>\<open>load_list\<close> come from
  \<^verbatim>\<open>patientpy_utils\<close>; their results are part of the input.
\<close>

record 'a feature_type =
  file_list :: "(string \<times> 'a ndarray) list"
  var_names :: "string list"

text \<open>\<^verbatim>\<open>[x + '_' + filename[:-4] for x in var_names]\<close>.\<close>

definition file_names :: "string list \<Rightarrow> string \<Rightarrow> names" where
  "file_names vars filename =
     Names (map (\<lambda>x. x @ ''_'' @ take (length filename - 4) filename) vars)"

fun load_dir_loop ::
  "string list \<Rightarrow> (nat \<times> string \<times> 'a ndarray) list \<Rightarrow> 'a pyobj \<times> names \<Rightarrow>
   error + 'a pyobj \<times> names" where
  "load_dir_loop vars [] (all_data, all_names) = Inr (all_data, all_names)"
| "load_dir_loop vars ((idx2, filename, curr_data) # rest) (all_data, all_names) =
     (case concat_arrays idx2 all_data all_names (Array curr_data) (file_names vars filename) of
        Inl e \<Rightarrow> Inl e
      | Inr r \<Rightarrow> load_dir_loop vars rest r)"

definition load_dir :: "'a feature_type \<Rightarrow> error + 'a pyobj \<times> names" where
  "load_dir ft = load_dir_loop (var_names ft) (enumerate 0 (file_list ft)) (PyNone, NamesNone)"

subsection \<open>\<^verbatim>\<open>assemble_feature_matrix\<close> (lines 44-133)\<close>

text \<open>
  The feature directory: for each feature type its files, and for each additional
  feature file its column names and the array read from it. A name that the directory
  does not have cannot be opened.
\<close>

record 'a feature_directory =
  feature_types :: "(string, 'a feature_type) dict"
  additional_files :: "(string, string list \<times> 'a ndarray) dict"

definition open_type :: "'a feature_directory \<Rightarrow> string \<Rightarrow> error + 'a feature_type" where
  "open_type dir curr_type =
     (case map_of (feature_types dir) curr_type of
        None \<Rightarrow> Inl FileNotFoundError
      | Some ft \<Rightarrow> Inr ft)"

definition open_additional ::
  "'a feature_directory \<Rightarrow> string \<Rightarrow> error + string list \<times> 'a ndarray" where
  "open_additional dir curr_file =
     (case map_of (additional_files dir) curr_file of
        None \<Rightarrow> Inl FileNotFoundError
      | Some f \<Rightarrow> Inr f)"

text \<open>The loop over the feature types (lines 81-96); the shapes are read for printing.\<close>

fun types_loop ::
  "'a feature_directory \<Rightarrow> (nat \<times> string) list \<Rightarrow> 'a pyobj \<times> names \<Rightarrow>
   error + 'a pyobj \<times> names" where
  "types_loop dir [] (full_data, full_names) = Inr (full_data, full_names)"
| "types_loop dir ((idx, curr_type) # rest) (full_data, full_names) =
     (case open_type dir curr_type of
        Inl e \<Rightarrow> Inl e
      | Inr ft \<Rightarrow>
     (case load_dir ft of
        Inl e \<Rightarrow> Inl e
      | Inr (loaded_data, loaded_names) \<Rightarrow>
     (case attr_shape loaded_data of
        Inl e \<Rightarrow> Inl e
      | Inr _ \<Rightarrow>
     (case names_shape loaded_names of
        Inl e \<Rightarrow> Inl e
      | Inr _ \<Rightarrow>
     (case concat_arrays idx full_data full_names loaded_data loaded_names of
        Inl e \<Rightarrow> Inl e
      | Inr r \<Rightarrow> types_loop dir rest r)))))"

text \<open>
  \<^verbatim>\<open>curr_data.reshape(curr_data.shape[0], 1)\<close>: a zero-dimensional array has no
  \<^verbatim>\<open>shape[0]\<close>, and the number of entries must be \<^verbatim>\<open>shape[0]\<close>.
\<close>

fun reshape_column :: "'a ndarray \<Rightarrow> error + 'a ndarray" where
  "reshape_column (Arr0 x) = Inl IndexError"
| "reshape_column (Arr1 xs) = Inr (Arr2 1 (map (\<lambda>x. [x]) xs))"
| "reshape_column (Arr2 c rows) =
     (if length rows * c = length rows then Inr (Arr2 1 (map (\<lambda>x. [x]) (concat rows)))
      else Inl ValueError)"

text \<open>The loop over the additional feature files (lines 100-110).\<close>

fun additional_loop ::
  "'a feature_directory \<Rightarrow> (nat \<times> string) list \<Rightarrow> 'a pyobj \<times> names \<Rightarrow>
   error + 'a pyobj \<times> names" where
  "additional_loop dir [] (full_data, full_names) = Inr (full_data, full_names)"
| "additional_loop dir ((idx, curr_file) # rest) (full_data, full_names) =
     (case open_additional dir curr_file of
        Inl e \<Rightarrow> Inl e
      | Inr (vars, curr_data) \<Rightarrow>
     (case reshape_column curr_data of
        Inl e \<Rightarrow> Inl e
      | Inr curr_data' \<Rightarrow>
     (case concat_arrays (idx + 1) full_data full_names (Array curr_data')
             (Names (map (\<lambda>x. x @ ''_'' @ curr_file) vars)) of
        Inl e \<Rightarrow> Inl e
      | Inr r \<Rightarrow> additional_loop dir rest r)))"

text \<open>
  \<^verbatim>\<open>np.where(full_names == curr_feature_name)\<close>: a tuple with one index array per
  dimension of the compared value, so a tuple of length one here. The comparison of the
  integer \<open>0\<close> or of \<^verbatim>\<open>None\<close> with a string is \<^verbatim>\<open>False\<close>, for which the NumPy
  releases that go with the imports of the drivers (before 2.0) return one empty index
  array.
\<close>

fun np_where_eq :: "names \<Rightarrow> string \<Rightarrow> nat list list" where
  "np_where_eq (Names xs) name = [filter (\<lambda>i. xs ! i = name) [0..<length xs]]"
| "np_where_eq _ name = [[]]"

text \<open>
  The loop of lines 115-118. \<open>column_index_result\<close> keeps the tuple of the last
  iteration; \<open>new_indicies\<close> collects the first matches.
\<close>

fun match_loop ::
  "names \<Rightarrow> string list \<Rightarrow> nat list \<Rightarrow> nat list list \<Rightarrow> error + nat list \<times> nat list list" where
  "match_loop full_names [] new_indicies column_index_result =
     Inr (new_indicies, column_index_result)"
| "match_loop full_names (curr_feature_name # rest) new_indicies column_index_result =
     (case list_get (np_where_eq full_names curr_feature_name) 1 of
        Inl e \<Rightarrow> Inl e
      | Inr cols \<Rightarrow>
          if length cols \<noteq> 0
          then match_loop full_names rest (new_indicies @ [cols ! 0])
                 (np_where_eq full_names curr_feature_name)
          else match_loop full_names rest new_indicies
                 (np_where_eq full_names curr_feature_name))"

text \<open>
  Lines 119-120 index both arrays with \<^verbatim>\<open>[:, column_index_result]\<close> (not with
  \<open>new_indicies\<close>). An integer or \<^verbatim>\<open>None\<close> cannot be subscripted; an array of
  dimension below 2 has too few axes for two indices, which the one-dimensional name
  array always is.
\<close>

fun index_columns :: "'a pyobj \<Rightarrow> names \<Rightarrow> nat list list \<Rightarrow> error + 'a pyobj \<times> names" where
  "index_columns (Array (Arr2 c rows)) (Names xs) column_index_result = Inl IndexError"
| "index_columns (Array (Arr2 c rows)) _ column_index_result = Inl TypeError"
| "index_columns (Array _) _ column_index_result = Inl IndexError"
| "index_columns _ _ column_index_result = Inl TypeError"

text \<open>\<^verbatim>\<open>full_names.reshape((full_names.shape[0], 1))\<close> (line 127).\<close>

fun reshape_names :: "names \<Rightarrow> error + string ndarray" where
  "reshape_names (Names xs) = Inr (Arr2 1 (map (\<lambda>x. [x]) xs))"
| "reshape_names _ = Inl AttributeError"

text \<open>
  The whole function; its result is the pair of arrays given to \<^verbatim>\<open>np.save\<close>.
\<close>

definition assemble_feature_matrix ::
  "'a feature_directory \<Rightarrow> string list \<Rightarrow> string list \<Rightarrow> string list \<Rightarrow>
   error + 'a pyobj \<times> string ndarray" where
  "assemble_feature_matrix feature_directory feature_types_to_include additional_features
       feature_columns_to_match =
     (case types_loop feature_directory (enumerate 0 feature_types_to_include)
             (PyInt 0, NamesInt 0) of
        Inl e \<Rightarrow> Inl e
      | Inr r1 \<Rightarrow>
     (case (if length additional_features \<noteq> 0
            then additional_loop feature_directory (enumerate 0 additional_features) r1
            else Inr r1) of
        Inl e \<Rightarrow> Inl e
      | Inr (full_data, full_names) \<Rightarrow>
     (case (if length feature_columns_to_match \<noteq> 0 then
              (case match_loop full_names feature_columns_to_match [] [] of
                 Inl e \<Rightarrow> Inl e
               | Inr (new_indicies, column_index_result) \<Rightarrow>
                   index_columns full_data full_names column_index_result)
            else Inr (full_data, full_names)) of
        Inl e \<Rightarrow> Inl e
      | Inr (full_data', full_names') \<Rightarrow>
     (case reshape_names full_names' of
        Inl e \<Rightarrow> Inl e
      | Inr names_column \<Rightarrow> Inr (full_data', names_column)))))"

section \<open>Notions used in the statements\<close>

text \<open>The first position of \<open>x\<close> in \<open>xs\<close> (the length of \<open>xs\<close> when absent).\<close>

definition first_pos :: "'a list \<Rightarrow> 'a \<Rightarrow> nat" where
  "first_pos xs x = length (takeWhile (\<lambda>y. y \<noteq> x) xs)"

text \<open>The entries of \<open>xs\<close> at the positions \<open>j\<close> with \<open>j mod 5 = k\<close>, in order.\<close>

definition every_fifth :: "nat \<Rightarrow> 'a list \<Rightarrow> 'a list" where
  "every_fifth k xs = map ((!) xs) (filter (\<lambda>j. j mod 5 = k) [0..<length xs])"

text \<open>The invariant of the loop over the case order.\<close>

definition folds_ok :: "fold_lists \<Rightarrow> bool" where
  "folds_ok s \<longleftrightarrow>
     length (sam_folds s) = 5 \<and> length (tar_folds s) = 5 \<and> length (feat_folds s) = 5 \<and>
     length (samples_full_fold_type s) = count_v s \<and>
     length (target_full_fold_type s) = count_v s \<and>
     length (feat_targ_full_fold_type s) = count_v s \<and>
     (\<forall>k<5. sam_folds s ! k = every_fifth k (samples_full_fold_type s) \<and>
            tar_folds s ! k = every_fifth k (target_full_fold_type s) \<and>
            feat_folds s ! k = every_fifth k (feat_targ_full_fold_type s))"

text \<open>The enumerated cases the loop selects: those present for the target.\<close>

definition present :: "string list \<Rightarrow> (nat \<times> string) list \<Rightarrow> (nat \<times> string) list" where
  "present tpr es = filter (\<lambda>(idx, case_id). case_id \<in> set tpr) es"

text \<open>
  A feature-index entry \<open>f\<close>, a target-index entry \<open>t\<close> and a case-id entry \<open>c\<close> refer
  to the same case: \<open>f\<close> is the decimal form of a position of \<open>c\<close> in the feature-matrix
  case order, \<open>t\<close> the decimal form of the first position of \<open>c\<close> in the target-matrix
  case order.
\<close>

definition same_case :: "string list \<Rightarrow> string list \<Rightarrow> string \<Rightarrow> string \<Rightarrow> string \<Rightarrow> bool" where
  "same_case case_order_rows target_case_rows f t c \<longleftrightarrow>
     (\<exists>idx<length case_order_rows. f = str_nat idx \<and> case_order_rows ! idx = c) \<and>
     (\<exists>p<length target_case_rows. t = str_nat p \<and> target_case_rows ! p = c \<and>
        (\<forall>j<p. target_case_rows ! j \<noteq> c))"

text \<open>The fold types of the six records of a target, in the order they are written.\<close>

definition fold_types :: "string list" where
  "fold_types = [''full'', ''0'', ''1'', ''2'', ''3'', ''4'']"

text \<open>
  The scenario of the specification: target \<open>fever\<close> present for the cases \<open>A\<close>, \<open>C\<close>, \<open>D\<close>
  of the case order \<open>A\<close>, \<open>B\<close>, \<open>C\<close>, \<open>D\<close>, \<open>E\<close>.
\<close>

definition nl :: string where
  "nl = [CHR 0x0A]"

definition tab :: string where
  "tab = [CHR 0x09]"

definition fever_params :: "(string, string) dict" where
  "fever_params =
     [(''case_order_rows_file'', ''case_order_rows.txt''),
      (''target_case_rows_file'', ''target_case_rows.txt''),
      (''target_feature_columns_file'', ''target_feature_columns.txt''),
      (''feature_samples_outfile'', ''feature_samples_out.txt''),
      (''target_samples_outfile'', ''target_samples_out.txt''),
      (''feat_targ_samples_outfile'', ''feat_targ_samples_out.txt''),
      (''item_present_file'', ''items_present-labeling.txt''),
      (''feature_matrix_name'', ''full_labeling_''),
      (''target_matrix_name'', ''target_full_matrix'')]"

definition fever_table :: text_file where
  "fever_table =
     [''id,case,fever'' @ nl, ''1,A,1'' @ nl, ''2,B,0'' @ nl, ''3,C,1'' @ nl, ''4,D,1'' @ nl,
      ''5,E,0'' @ nl]"

definition fever_fs :: filesystem where
  "fever_fs =
     [(''case_order_rows.txt'', [''A'' @ nl, ''B'' @ nl, ''C'' @ nl, ''D'' @ nl, ''E'' @ nl]),
      (''target_case_rows.txt'', [''A'' @ nl, ''B'' @ nl, ''C'' @ nl, ''D'' @ nl, ''E'' @ nl]),
      (''target_feature_columns.txt'', [''fever'' @ nl]),
      (''items_present-labeling.txt'', fever_table)]"

text \<open>
  Seven cases, the target-matrix case order reversed, target \<open>fever\<close> present for all
  cases but \<open>D\<close>.
\<close>

definition seven_cases_fs :: filesystem where
  "seven_cases_fs =
     [(''case_order_rows.txt'',
         [''A'' @ nl, ''B'' @ nl, ''C'' @ nl, ''D'' @ nl, ''E'' @ nl, ''F'' @ nl, ''G'' @ nl]),
      (''target_case_rows.txt'',
         [''G'' @ nl, ''F'' @ nl, ''E'' @ nl, ''D'' @ nl, ''C'' @ nl, ''B'' @ nl, ''A'' @ nl]),
      (''target_feature_columns.txt'', [''fever'' @ nl]),
      (''items_present-labeling.txt'',
         [''id,case,fever'' @ nl, ''1,A,1'' @ nl, ''2,B,1'' @ nl, ''3,C,1'' @ nl, ''4,D,0'' @ nl,
          ''5,E,1'' @ nl, ''6,F,1'' @ nl, ''7,G,1'' @ nl])]"

text \<open>
  Three cases, with \<open>C\<close> twice in the target-matrix case order, target \<open>fever\<close> present
  for \<open>A\<close> and \<open>C\<close>.
\<close>

definition reordered_fs :: filesystem where
  "reordered_fs =
     [(''case_order_rows.txt'', [''A'' @ nl, ''B'' @ nl, ''C'' @ nl]),
      (''target_case_rows.txt'', [''C'' @ nl, ''B'' @ nl, ''A'' @ nl, ''C'' @ nl]),
      (''target_feature_columns.txt'', [''fever'' @ nl]),
      (''items_present-labeling.txt'',
         [''id,case,fever'' @ nl, ''1,C,1'' @ nl, ''2,B,0'' @ nl, ''3,A,1'' @ nl])]"


text \<open>The six combinations in the order of their scores.\<close>

definition combinations :: "string list" where
  "combinations = [''lr-m'', ''sv-m'', ''rf-m'', ''lr-r'', ''sv-r'', ''rf-r'']"

text \<open>
  A line \<open>model_type:i1,...,in\<close> of a feature-selection result file, and the index list
  the loader stores for it.
\<close>

definition selection_line :: "string \<Rightarrow> nat list \<Rightarrow> string" where
  "selection_line model_type ns = model_type @ '':'' @ join '','' (map str_nat ns)"

definition stored_indices :: "nat list \<Rightarrow> int list" where
  "stored_indices ns = (if ns = [] then [0] else map int ns)"

text \<open>The dictionary entries the loader stores for the lines of one result file.\<close>

definition stored_entries :: "string \<Rightarrow> (string \<times> nat list) list \<Rightarrow> (string \<times> int list) list" where
  "stored_entries imp ps = map (\<lambda>(model_type, ns). (model_type @ imp, stored_indices ns)) ps"

text \<open>
  The keys the inverse loop needs: every model key is a key of both sample
  dictionaries, and so is the full key of every key without \<open>_full\<close>.
\<close>

definition keys_ok ::
  "(string, int list) dict \<Rightarrow> (string, int list) dict \<Rightarrow> string list \<Rightarrow> bool" where
  "keys_ok feature_samples target_samples ks \<longleftrightarrow>
     (\<forall>k\<in>set ks.
        k \<in> set (keys feature_samples) \<and> k \<in> set (keys target_samples) \<and>
        (\<not> contains ''_full'' k \<longrightarrow>
           full_key k \<in> set (keys feature_samples) \<and> full_key k \<in> set (keys target_samples)))"

text \<open>
  The list the inverse loop stores under a key: the key's own list for a key with
  \<open>_full\<close>, else the entries of the full list that do not occur in the key's list.
\<close>

definition inverse_of :: "(string, int list) dict \<Rightarrow> string \<Rightarrow> int list" where
  "inverse_of samples k =
     (if contains ''_full'' k then the (map_of samples k)
      else filter (\<lambda>x. x \<notin> set (the (map_of samples k))) (the (map_of samples (full_key k))))"

text \<open>Sample dictionaries of one target with six present cases, as the indexer writes them.\<close>

definition example_feature_samples :: "(string, int list) dict" where
  "example_feature_samples =
     [(''0_full'', [0, 2, 3, 5, 7, 9]), (''0_0'', [0, 9]), (''0_1'', [2]), (''0_2'', [3]),
      (''0_3'', [5]), (''0_4'', [7])]"

definition example_target_samples :: "(string, int list) dict" where
  "example_target_samples =
     [(''0_full'', [4, 1, 0, 2, 8, 6]), (''0_0'', [4, 6]), (''0_1'', [1]), (''0_2'', [0]),
      (''0_3'', [2]), (''0_4'', [8])]"

text \<open>Feature-selection result files of the key \<open>0_full\<close>.\<close>

definition example_selection_fs :: filesystem where
  "example_selection_fs =
     [(''0_full-mImp.txt'', [''lr:3,17'' @ nl, ''sv:'' @ nl, ''rf:0'' @ nl]),
      (''0_full-rImp.txt'', [''lr:5'' @ nl, ''sv:1,2'' @ nl, ''rf:'' @ nl])]"




text \<open>The invariant of the assembling loops: a matrix of \<open>r\<close> rows with one name per column.\<close>

definition assembled :: "nat \<Rightarrow> 'a pyobj \<times> names \<Rightarrow> bool" where
  "assembled r st \<longleftrightarrow>
     (case st of
        (Array (Arr2 c rows), Names ns) \<Rightarrow> length rows = r \<and> length ns = c
      | _ \<Rightarrow> False)"

text \<open>
  A directory with the feature type \<open>demo\<close>: one file of two cases and two columns.
\<close>

definition demo_directory :: "int feature_directory" where
  "demo_directory =
     \<lparr>feature_types =
        [(''demo'', \<lparr>file_list = [(''a.csv'', Arr2 2 [[1, 2], [3, 4]])],
                     var_names = [''x'', ''y'']\<rparr>)],
      additional_files = [(''bmi_features'', ([''bmi''], Arr1 [22, 31]))]\<rparr>"



section \<open>Properties\<close>

subsection \<open>Lists and decimal strings\<close>

lemma list_index_first_pos:
  "list_index xs x = (if x \<in> set xs then Inr (first_pos xs x) else Inl ValueError)"
  by (induction xs) (auto simp: first_pos_def)

lemma first_pos_less: "x \<in> set xs \<Longrightarrow> first_pos xs x < length xs"
  by (induction xs) (auto simp: first_pos_def)

lemma first_pos_nth: "x \<in> set xs \<Longrightarrow> xs ! first_pos xs x = x"
  by (induction xs) (auto simp: first_pos_def)

lemma first_pos_first: "j < first_pos xs x \<Longrightarrow> xs ! j \<noteq> x"
proof (induction xs arbitrary: j)
  case Nil
  then show ?case by (simp add: first_pos_def)
next
  case (Cons y ys)
  then show ?case
    by (cases j) (auto simp: first_pos_def split: if_splits)
qed

lemma digit_cases:
  assumes "n < (10::nat)"
  obtains "n = 0" | "n = 1" | "n = 2" | "n = 3" | "n = 4"
        | "n = 5" | "n = 6" | "n = 7" | "n = 8" | "n = 9"
proof -
  from assms have "n \<in> set [0..<10]" by simp
  also have "[0..<10] = [0, 1, 2, 3, 4, 5, 6, 7, 8, 9::nat]" by (simp add: upt_rec)
  finally show thesis using that by auto
qed

lemma digits_nth_is_digit: "n < 10 \<Longrightarrow> is_digit (digits ! n)"
  by (erule digit_cases) (simp_all add: is_digit_def digits_def)

lemma digit_val_digits_nth: "n < 10 \<Longrightarrow> digit_val (digits ! n) = n"
  by (erule digit_cases) (simp_all add: digit_val_def digits_def)

lemma is_digit_not_special:
  "is_digit c \<Longrightarrow>
   c \<noteq> CHR ''_'' \<and> c \<noteq> CHR ''-'' \<and> c \<noteq> CHR ''+'' \<and> c \<noteq> CHR '','' \<and> c \<noteq> CHR '':'' \<and> \<not> isspace c \<and>
   \<not> int_space c"
  by (auto simp: is_digit_def digits_def isspace_def whitespace_def int_space_def
      int_whitespace_def)

lemma str_nat_digits: "c \<in> set (str_nat n) \<Longrightarrow> is_digit c"
proof (induction n rule: str_nat.induct)
  case (1 n)
  then show ?case
    by (subst (asm) str_nat.simps) (auto simp: digits_nth_is_digit split: if_splits)
qed

lemma str_nat_nonempty: "str_nat n \<noteq> []"
  by (subst str_nat.simps) simp

lemma int_digits_all: "s \<noteq> [] \<Longrightarrow> \<forall>c\<in>set s. is_digit c \<Longrightarrow> int_digits s"
  by (induction s rule: int_digits.induct) (auto dest: is_digit_not_special)

lemma digits_value_snoc:
  "c \<noteq> CHR ''_'' \<Longrightarrow> digits_value (s @ [c]) = 10 * digits_value s + digit_val c"
  by (simp add: digits_value_def)

lemma digits_value_str_nat: "digits_value (str_nat n) = n"
proof (induction n rule: str_nat.induct)
  case (1 n)
  show ?case
  proof (cases "n < 10")
    case True
    have nu: "digits ! n \<noteq> CHR ''_''"
      using is_digit_not_special [OF digits_nth_is_digit [OF True]] by simp
    from True show ?thesis
      using digits_value_snoc [OF nu, of "[]"]
      by (subst str_nat.simps) (simp add: digits_value_def digit_val_digits_nth)
  next
    case False
    have nu: "digits ! (n mod 10) \<noteq> CHR ''_''"
      using is_digit_not_special [OF digits_nth_is_digit [of "n mod 10"]] by simp
    from False 1 show ?thesis
      by (subst str_nat.simps) (simp add: digits_value_snoc [OF nu] digit_val_digits_nth)
  qed
qed

lemma str_nat_inj: "str_nat m = str_nat n \<Longrightarrow> m = n"
  using digits_value_str_nat by metis

lemma rstrip_no_space: "\<forall>c\<in>set s. \<not> isspace c \<Longrightarrow> rstrip s = s"
proof -
  assume ns: "\<forall>c\<in>set s. \<not> isspace c"
  have "dropWhile isspace (rev s) = rev s"
    using ns by (cases "rev s") (simp, metis dropWhile.simps(2) list.set_intros(1) set_rev)
  then show ?thesis by (simp add: rstrip_def)
qed

lemma int_strip_no_space: "\<forall>c\<in>set s. \<not> int_space c \<Longrightarrow> int_strip s = s"
proof -
  assume ns: "\<forall>c\<in>set s. \<not> int_space c"
  have "dropWhile int_space (rev s) = rev s"
    using ns by (cases "rev s") (simp, metis dropWhile.simps(2) list.set_intros(1) set_rev)
  moreover have "dropWhile int_space s = s" using ns by (cases s) auto
  ultimately show ?thesis by (simp add: int_strip_def)
qed

lemma py_int_str_nat: "py_int (str_nat n) = Inr (int n)"
proof -
  have d: "\<forall>c\<in>set (str_nat n). is_digit c" by (simp add: str_nat_digits)
  then have "int_strip (str_nat n) = str_nat n"
    by (intro int_strip_no_space) (auto dest: is_digit_not_special)
  moreover have "hd (str_nat n) \<noteq> CHR ''-''" "hd (str_nat n) \<noteq> CHR ''+''"
    using d str_nat_nonempty [of n] is_digit_not_special [of "hd (str_nat n)"] by auto
  ultimately show ?thesis
    by (simp add: py_int_def Let_def int_digits_all [OF str_nat_nonempty d] digits_value_str_nat)
qed

text \<open>
  The separators 0x1C to 0x1F are whitespace for \<^verbatim>\<open>rstrip\<close> and not for
  \<^verbatim>\<open>int\<close>; the other whitespace may surround the number.
\<close>

lemma py_int_separator:
  "py_int (''1'' @ [CHR 0x1F]) = Inl ValueError"
  "rstrip (''1'' @ [CHR 0x1F]) = ''1''"
  "py_int ([CHR 0x0B] @ ''-1_0'' @ [CHR 0xA0]) = Inr (- 10)"
  by code_simp+

subsection \<open>The item-presence scan\<close>

lemma present_rows_loop_blank:
  "rstrip blank = [] \<Longrightarrow>
   present_rows_loop t (pre @ blank # post) fl col rows = present_rows_loop t pre fl col rows"
proof (induction pre arbitrary: fl col rows)
  case Nil
  then show ?case by simp
next
  case (Cons l pre)
  show ?case
    by (simp add: Cons.IH [OF Cons.prems] Let_def split: sum.splits)
qed

subsection \<open>Round-robin folds\<close>

lemma every_fifth_Nil: "every_fifth k [] = []"
  by (simp add: every_fifth_def)

lemma every_fifth_snoc:
  "every_fifth k (xs @ [x]) = every_fifth k xs @ (if length xs mod 5 = k then [x] else [])"
  by (auto simp: every_fifth_def nth_append)

lemma upt_5: "[0..<5] = [0, 1, 2, 3, 4::nat]"
  by (simp add: upt_rec)

lemma mset_every_fifth:
  "mset (concat (map (\<lambda>k. every_fifth k xs) [0..<5])) = mset xs"
proof (induction xs rule: rev_induct)
  case Nil
  then show ?case by (simp add: every_fifth_Nil)
next
  case (snoc x xs)
  have "length xs mod 5 < 5" by simp
  then consider "length xs mod 5 = 0" | "length xs mod 5 = 1" | "length xs mod 5 = 2"
    | "length xs mod 5 = 3" | "length xs mod 5 = 4" by linarith
  then show ?case using snoc.IH
    by cases (simp_all add: upt_5 every_fifth_snoc)
qed

lemma concat_folds:
  assumes "length folds = 5" and "\<forall>k<5. folds ! k = every_fifth k xs"
  shows "mset (concat folds) = mset xs"
proof -
  have "folds = map ((!) folds) [0..<5]"
    using assms(1) map_nth [of folds] by simp
  also have "\<dots> = map (\<lambda>k. every_fifth k xs) [0..<5]"
    using assms(2) by simp
  finally have "folds = map (\<lambda>k. every_fifth k xs) [0..<5]" .
  then show ?thesis using mset_every_fifth [of xs] by simp
qed

lemma every_fifth_related:
  assumes "length fs = length cs" and "length ts = length cs"
    and "\<forall>i<length cs. R (fs ! i) (ts ! i) (cs ! i)"
  shows "length (every_fifth k fs) = length (every_fifth k cs) \<and>
         length (every_fifth k ts) = length (every_fifth k cs) \<and>
         (\<forall>i<length (every_fifth k cs).
            R (every_fifth k fs ! i) (every_fifth k ts ! i) (every_fifth k cs ! i))"
proof -
  let ?js = "filter (\<lambda>j. j mod 5 = k) [0..<length cs]"
  have "\<forall>i<length ?js. ?js ! i < length cs"
    using nth_mem [of _ ?js] by fastforce
  with assms show ?thesis by (simp add: every_fifth_def)
qed

subsection \<open>The loop over the case order\<close>

lemma folds_ok_initial: "folds_ok initial_lists"
  by (simp add: folds_ok_def initial_lists_def every_fifth_Nil)

lemma fold_append_length: "length (fold_append folds k x) = length folds"
  by (simp add: fold_append_def)

lemma fold_append_nth:
  "k < length folds \<Longrightarrow> j < length folds \<Longrightarrow>
   fold_append folds k x ! j = (if j = k then folds ! k @ [x] else folds ! j)"
  by (simp add: fold_append_def)

lemma folds_ok_step:
  assumes "folds_ok s"
  shows "folds_ok
     (s\<lparr>samples_full_fold_type := samples_full_fold_type s @ [a],
        target_full_fold_type := target_full_fold_type s @ [b],
        feat_targ_full_fold_type := feat_targ_full_fold_type s @ [c],
        sam_folds := fold_append (sam_folds s) (count_v s mod 5) a,
        tar_folds := fold_append (tar_folds s) (count_v s mod 5) b,
        feat_folds := fold_append (feat_folds s) (count_v s mod 5) c,
        count_v := count_v s + 1\<rparr>)"
  using assms
  by (simp add: folds_ok_def fold_append_length fold_append_nth every_fifth_snoc)

lemma case_rows_loop_folds_ok:
  "folds_ok s \<Longrightarrow> case_rows_loop tcr tpr es s = Inr s' \<Longrightarrow> folds_ok s'"
proof (induction es arbitrary: s)
  case Nil
  then show ?case by simp
next
  case (Cons e es)
  obtain idx case_id where e: "e = (idx, case_id)" by (cases e)
  show ?case
  proof (cases "case_id \<in> set tpr")
    case False
    with Cons e show ?thesis by simp
  next
    case True
    with Cons.prems e obtain t where t: "list_index tcr case_id = Inr t"
      by (auto split: sum.splits)
    from Cons.prems(2) e True t Cons.IH [OF folds_ok_step [OF Cons.prems(1)]]
    show ?thesis by simp
  qed
qed

lemma case_rows_loop_full:
  "case_rows_loop tcr tpr es s = Inr s' \<Longrightarrow>
   samples_full_fold_type s' =
     samples_full_fold_type s @ map (\<lambda>(idx, c). str_nat idx) (present tpr es) \<and>
   target_full_fold_type s' =
     target_full_fold_type s @ map (\<lambda>(idx, c). str_nat (first_pos tcr c)) (present tpr es) \<and>
   feat_targ_full_fold_type s' = feat_targ_full_fold_type s @ map snd (present tpr es)"
proof (induction es arbitrary: s)
  case Nil
  then show ?case by (simp add: present_def)
next
  case (Cons e es)
  obtain idx case_id where e: "e = (idx, case_id)" by (cases e)
  show ?case
  proof (cases "case_id \<in> set tpr")
    case False
    with Cons e show ?thesis by (simp add: present_def)
  next
    case True
    with Cons.prems e have mem: "case_id \<in> set tcr"
      by (auto simp: list_index_first_pos split: if_splits)
    from Cons.prems e True mem Cons.IH
    show ?thesis by (simp add: present_def list_index_first_pos)
  qed
qed

lemma case_rows_loop_succeeds:
  "\<forall>c\<in>snd ` set es. c \<in> set tpr \<longrightarrow> c \<in> set tcr \<Longrightarrow>
   \<exists>s'. case_rows_loop tcr tpr es s = Inr s'"
  by (induction es arbitrary: s) (auto simp: list_index_first_pos)

lemma case_rows_loop_fails:
  "\<exists>c\<in>snd ` set es. c \<in> set tpr \<and> c \<notin> set tcr \<Longrightarrow>
   case_rows_loop tcr tpr es s = Inl ValueError"
proof (induction es arbitrary: s)
  case Nil
  then show ?case by simp
next
  case (Cons e es)
  obtain idx case_id where e: "e = (idx, case_id)" by (cases e)
  show ?case
  proof (cases "case_id \<in> set tpr \<and> case_id \<notin> set tcr")
    case True
    with e show ?thesis by (simp add: list_index_first_pos)
  next
    case False
    with Cons.prems e have "\<exists>c\<in>snd ` set es. c \<in> set tpr \<and> c \<notin> set tcr" by auto
    from Cons.IH [OF this] e show ?thesis
      by (simp add: list_index_first_pos)
  qed
qed

lemma snd_enumerate: "snd ` set (enumerate n xs) = set xs"
  by (metis list.set_map map_snd_enumerate)

lemma index_cases_succeeds:
  assumes "\<forall>c\<in>set cor. c \<in> set tpr \<longrightarrow> c \<in> set tcr"
  shows "\<exists>s. index_cases cor tcr tpr = Inr s"
  unfolding index_cases_def using assms
  by (intro case_rows_loop_succeeds) (simp add: snd_enumerate)

lemma index_cases_folds_ok: "index_cases cor tcr tpr = Inr s \<Longrightarrow> folds_ok s"
  unfolding index_cases_def by (rule case_rows_loop_folds_ok [OF folds_ok_initial])

lemma index_cases_full:
  assumes "index_cases cor tcr tpr = Inr s"
  shows "samples_full_fold_type s = map (\<lambda>(idx, c). str_nat idx) (present tpr (enumerate 0 cor))"
    and "target_full_fold_type s =
           map (\<lambda>(idx, c). str_nat (first_pos tcr c)) (present tpr (enumerate 0 cor))"
    and "feat_targ_full_fold_type s = map snd (present tpr (enumerate 0 cor))"
  using case_rows_loop_full [OF assms [unfolded index_cases_def]]
  by (simp_all add: initial_lists_def)

lemma samples_full_indices:
  assumes "index_cases cor tcr tpr = Inr s"
  shows "samples_full_fold_type s =
           map str_nat (filter (\<lambda>i. cor ! i \<in> set tpr) [0..<length cor])"
proof -
  have "map fst (present tpr (enumerate 0 cor)) = filter (\<lambda>i. cor ! i \<in> set tpr) [0..<length cor]"
  proof -
    have "map fst (filter (\<lambda>(idx, c). c \<in> set tpr) (enumerate 0 cor))
          = map fst (filter (\<lambda>p. cor ! fst p \<in> set tpr) (enumerate 0 cor))"
      by (rule arg_cong [where f = "map fst"], rule filter_cong)
         (auto simp: in_set_enumerate_eq)
    also have "\<dots> = filter (\<lambda>i. cor ! i \<in> set tpr) (map fst (enumerate 0 cor))"
      unfolding filter_map comp_def ..
    also have "map fst (enumerate 0 cor) = [0..<length cor]"
      by (simp add: map_fst_enumerate)
    finally show ?thesis by (simp add: present_def)
  qed
  moreover have "map (\<lambda>(idx, c). str_nat idx) (present tpr (enumerate 0 cor))
        = map str_nat (map fst (present tpr (enumerate 0 cor)))"
    by (simp add: case_prod_unfold comp_def)
  ultimately show ?thesis using index_cases_full(1) [OF assms] by simp
qed

text \<open>
  The loop raises exactly when a case of the feature-matrix case order is present for
  the target and missing from the target-matrix case order; a present case id outside
  the feature-matrix case order is never looked up.
\<close>

lemma index_cases_raises_iff:
  "index_cases case_order_rows target_case_rows target_present_rows = Inl ValueError \<longleftrightarrow>
   (\<exists>c\<in>set case_order_rows. c \<in> set target_present_rows \<and> c \<notin> set target_case_rows)"
proof
  assume "index_cases case_order_rows target_case_rows target_present_rows = Inl ValueError"
  then show "\<exists>c\<in>set case_order_rows. c \<in> set target_present_rows \<and> c \<notin> set target_case_rows"
    using index_cases_succeeds [of case_order_rows target_present_rows target_case_rows]
    by auto
next
  assume "\<exists>c\<in>set case_order_rows. c \<in> set target_present_rows \<and> c \<notin> set target_case_rows"
  then show "index_cases case_order_rows target_case_rows target_present_rows = Inl ValueError"
    unfolding index_cases_def
    by (intro case_rows_loop_fails) (auto simp: snd_enumerate)
qed

subsection \<open>Claims about the Sample Indexer\<close>

text \<open>
  Claim C10. When the item-presence table contains a line that is empty after
  \<^verbatim>\<open>rstrip\<close>, \<^verbatim>\<open>load_target_present_rows\<close> stops scanning there: its result is
  its result on the lines before that line alone, whatever follows, so no case listed
  after the blank line is added to the present set (the blank line is not skipped).
\<close>

theorem load_target_present_rows_stops_at_blank:
  "rstrip blank = [] \<Longrightarrow>
   load_target_present_rows ((path, pre @ blank # post) # fs) path target_name =
   load_target_present_rows ((path, pre) # fs) path target_name"
  by (simp add: load_target_present_rows_def open_read_def present_rows_loop_blank)

text \<open>
  At a table whose third line is blank and whose fourth line marks case \<open>B\<close> present,
  only \<open>A\<close> is returned.
\<close>

theorem load_target_present_rows_stops_at_blank_witness:
  "rstrip nl = [] \<and>
   load_target_present_rows
     [(''items'', [''id,case,fever'' @ nl, ''1,A,1'' @ nl] @ nl # [''2,B,1'' @ nl])] ''items'' ''fever''
   = Inr [''A'']"
proof -
  have b: "rstrip nl = []"
    by (simp add: nl_def rstrip_def isspace_def whitespace_def)
  have "load_target_present_rows [(''items'', [''id,case,fever'' @ nl, ''1,A,1'' @ nl])]
          ''items'' ''fever'' = Inr [''A'']"
    unfolding nl_def by code_simp
  with load_target_present_rows_stops_at_blank [OF b, of "''items''"
         "[''id,case,fever'' @ nl, ''1,A,1'' @ nl]" "[''2,B,1'' @ nl]" "[]" "''fever''"] b
  show ?thesis by (simp only: simp_thms)
qed




text \<open>
  The loop over the case order by itself: for present cases that all occur in the
  target-matrix case order it returns five folds per list; fold \<open>k\<close> holds the entries
  of the full list at the positions \<open>j\<close> with \<open>j mod 5 = k\<close>, the concatenation of the
  five folds has exactly the entries of the full list (as a multiset), and the
  feature-row indices are pairwise distinct.
\<close>

lemma folds_partition_full:
  assumes "\<forall>c\<in>set case_order_rows. c \<in> set target_present_rows \<longrightarrow> c \<in> set target_case_rows"
  shows "\<exists>s. index_cases case_order_rows target_case_rows target_present_rows = Inr s \<and>
           length (sam_folds s) = 5 \<and> length (tar_folds s) = 5 \<and> length (feat_folds s) = 5 \<and>
           (\<forall>k<5. sam_folds s ! k = every_fifth k (samples_full_fold_type s) \<and>
                  tar_folds s ! k = every_fifth k (target_full_fold_type s) \<and>
                  feat_folds s ! k = every_fifth k (feat_targ_full_fold_type s)) \<and>
           mset (concat (sam_folds s)) = mset (samples_full_fold_type s) \<and>
           mset (concat (tar_folds s)) = mset (target_full_fold_type s) \<and>
           mset (concat (feat_folds s)) = mset (feat_targ_full_fold_type s) \<and>
           distinct (samples_full_fold_type s) \<and> distinct (concat (sam_folds s))"
proof -
  from index_cases_succeeds [OF assms] obtain s
    where s: "index_cases case_order_rows target_case_rows target_present_rows = Inr s" ..
  have ok: "folds_ok s" by (rule index_cases_folds_ok [OF s])
  then have len: "length (sam_folds s) = 5" "length (tar_folds s) = 5" "length (feat_folds s) = 5"
    and sam: "\<forall>k<5. sam_folds s ! k = every_fifth k (samples_full_fold_type s)"
    and tar: "\<forall>k<5. tar_folds s ! k = every_fifth k (target_full_fold_type s)"
    and feat: "\<forall>k<5. feat_folds s ! k = every_fifth k (feat_targ_full_fold_type s)"
    by (simp_all add: folds_ok_def)
  have m: "mset (concat (sam_folds s)) = mset (samples_full_fold_type s)"
    "mset (concat (tar_folds s)) = mset (target_full_fold_type s)"
    "mset (concat (feat_folds s)) = mset (feat_targ_full_fold_type s)"
    using len sam tar feat by (simp_all add: concat_folds)
  have d: "distinct (samples_full_fold_type s)"
    unfolding samples_full_indices [OF s]
    by (simp add: distinct_map inj_on_def str_nat_inj)
  have d': "distinct (concat (sam_folds s))"
    using d m(1) by (metis mset_eq_imp_distinct_iff)
  from s len sam tar feat m d d' show ?thesis by simp
qed

text \<open>
  Seven cases, six of them present (all but \<open>D\<close>), the target-matrix case order
  reversed: the sixth present case goes to fold \<open>0\<close>.
\<close>

lemma folds_partition_full_example:
  "(\<exists>s. index_cases [''A'', ''B'', ''C'', ''D'', ''E'', ''F'', ''G'']
           [''G'', ''F'', ''E'', ''D'', ''C'', ''B'', ''A'']
           [''A'', ''B'', ''C'', ''E'', ''F'', ''G''] = Inr s \<and>
        samples_full_fold_type s = [''0'', ''1'', ''2'', ''4'', ''5'', ''6''] \<and>
        sam_folds s = [[''0'', ''6''], [''1''], [''2''], [''4''], [''5'']] \<and>
        mset (concat (sam_folds s)) = mset (samples_full_fold_type s))"
proof -
  have h: "\<forall>c\<in>set [''A'', ''B'', ''C'', ''D'', ''E'', ''F'', ''G''].
      c \<in> set [''A'', ''B'', ''C'', ''E'', ''F'', ''G''] \<longrightarrow>
      c \<in> set [''G'', ''F'', ''E'', ''D'', ''C'', ''B'', ''A'']" by simp
  have e: "index_cases [''A'', ''B'', ''C'', ''D'', ''E'', ''F'', ''G'']
           [''G'', ''F'', ''E'', ''D'', ''C'', ''B'', ''A'']
           [''A'', ''B'', ''C'', ''E'', ''F'', ''G'']
        = Inr \<lparr>samples_full_fold_type = [''0'', ''1'', ''2'', ''4'', ''5'', ''6''],
               target_full_fold_type = [''6'', ''5'', ''4'', ''2'', ''1'', ''0''],
               feat_targ_full_fold_type = [''A'', ''B'', ''C'', ''E'', ''F'', ''G''],
               sam_folds = [[''0'', ''6''], [''1''], [''2''], [''4''], [''5'']],
               tar_folds = [[''6'', ''0''], [''5''], [''4''], [''2''], [''1'']],
               feat_folds = [[''A'', ''G''], [''B''], [''C''], [''E''], [''F'']],
               count_v = 6\<rparr>"
    by code_simp
  from folds_partition_full [OF h] obtain s where
    s: "index_cases [''A'', ''B'', ''C'', ''D'', ''E'', ''F'', ''G'']
           [''G'', ''F'', ''E'', ''D'', ''C'', ''B'', ''A'']
           [''A'', ''B'', ''C'', ''E'', ''F'', ''G''] = Inr s"
    and m: "mset (concat (sam_folds s)) = mset (samples_full_fold_type s)"
    by blast
  from s e have "samples_full_fold_type s = [''0'', ''1'', ''2'', ''4'', ''5'', ''6'']"
    "sam_folds s = [[''0'', ''6''], [''1''], [''2''], [''4''], [''5'']]" by auto
  with s m show ?thesis by blast
qed

lemma list5: "length xs = 5 \<Longrightarrow> xs = [xs ! 0, xs ! 1, xs ! 2, xs ! 3, xs ! 4]"
  using map_nth [of xs] by (simp add: upt_5)

lemma str_nat_small:
  "str_nat 0 = ''0''" "str_nat 1 = ''1''" "str_nat (Suc 0) = ''1''" "str_nat 2 = ''2''" "str_nat 3 = ''3''" "str_nat 4 = ''4''"
  by (simp_all add: str_nat.simps digits_def)

lemma target_lines_zip:
  assumes "length folds = 5"
  shows "target_lines name t_idx target_name full folds =
         map2 (record_line name t_idx target_name) fold_types (full # folds)"
proof -
  have "map2 (record_line name t_idx target_name) fold_types (full # folds)
      = map2 (record_line name t_idx target_name) fold_types
          (full # [folds ! 0, folds ! 1, folds ! 2, folds ! 3, folds ! 4])"
    using list5 [OF assms] by simp
  then show ?thesis
    by (simp add: target_lines_def fold_types_def upt_5 str_nat_small)
qed

lemma same_case_present:
  assumes all: "\<forall>c\<in>set cor. c \<in> set tpr \<longrightarrow> c \<in> set tcr"
    and i: "i < length (present tpr (enumerate 0 cor))"
  shows "same_case cor tcr
           (map (\<lambda>(idx, c). str_nat idx) (present tpr (enumerate 0 cor)) ! i)
           (map (\<lambda>(idx, c). str_nat (first_pos tcr c)) (present tpr (enumerate 0 cor)) ! i)
           (map snd (present tpr (enumerate 0 cor)) ! i)"
proof -
  obtain idx c where p: "present tpr (enumerate 0 cor) ! i = (idx, c)"
    by (cases "present tpr (enumerate 0 cor) ! i")
  have "(idx, c) \<in> set (present tpr (enumerate 0 cor))"
    using nth_mem [OF i] p by simp
  then have en: "(idx, c) \<in> set (enumerate 0 cor)" and pr: "c \<in> set tpr"
    by (auto simp: present_def)
  from en have idx: "idx < length cor" "cor ! idx = c"
    by (auto simp: in_set_enumerate_eq)
  then have "c \<in> set cor" by auto
  with all pr have tc: "c \<in> set tcr" by blast
  show ?thesis
    using i p idx first_pos_less [OF tc] first_pos_nth [OF tc] first_pos_first [of _ tcr c]
    by (auto simp: same_case_def)
qed

text \<open>
  The loop over the case order by itself: for present cases that all occur in the
  target-matrix case order, the three full lists have equal length and so have the
  three lists of every fold; at every position the feature entry is the position of
  the case in the feature-matrix case order, the target entry is the first position of
  the same case id in the target-matrix case order, and the case-id entry is that case
  id. The writes of lines 205-214 then give each of the three files six records, keyed
  by the same target index and the fold types \<open>full, 0, 1, 2, 3, 4\<close> in this order.
\<close>

lemma parallel_lists_same_case:
  assumes "\<forall>c\<in>set case_order_rows. c \<in> set target_present_rows \<longrightarrow> c \<in> set target_case_rows"
  shows "\<exists>s. index_cases case_order_rows target_case_rows target_present_rows = Inr s \<and>
     length (samples_full_fold_type s) = length (feat_targ_full_fold_type s) \<and>
     length (target_full_fold_type s) = length (feat_targ_full_fold_type s) \<and>
     (\<forall>i<length (feat_targ_full_fold_type s).
        same_case case_order_rows target_case_rows
          (samples_full_fold_type s ! i) (target_full_fold_type s ! i)
          (feat_targ_full_fold_type s ! i)) \<and>
     (\<forall>k<5. length (sam_folds s ! k) = length (feat_folds s ! k) \<and>
            length (tar_folds s ! k) = length (feat_folds s ! k) \<and>
            (\<forall>i<length (feat_folds s ! k).
               same_case case_order_rows target_case_rows
                 (sam_folds s ! k ! i) (tar_folds s ! k ! i) (feat_folds s ! k ! i))) \<and>
     (\<forall>params t_idx target_name out out'.
        write_target params t_idx target_name s out = Inr out' \<longrightarrow>
        (\<exists>fm tm.
           feature_samples_outfile out' = feature_samples_outfile out
             @ map2 (record_line fm t_idx target_name) fold_types
                 (samples_full_fold_type s # sam_folds s) \<and>
           target_samples_outfile out' = target_samples_outfile out
             @ map2 (record_line tm t_idx target_name) fold_types
                 (target_full_fold_type s # tar_folds s) \<and>
           feat_and_targ_samples_outfile out' = feat_and_targ_samples_outfile out
             @ map2 (record_line tm t_idx target_name) fold_types
                 (feat_targ_full_fold_type s # feat_folds s)))"
proof -
  let ?R = "same_case case_order_rows target_case_rows"
  from index_cases_succeeds [OF assms] obtain s
    where s: "index_cases case_order_rows target_case_rows target_present_rows = Inr s" ..
  note full = index_cases_full [OF s]
  have l1: "length (samples_full_fold_type s) = length (feat_targ_full_fold_type s)"
    and l2: "length (target_full_fold_type s) = length (feat_targ_full_fold_type s)"
    by (simp_all add: full)
  have r: "\<forall>i<length (feat_targ_full_fold_type s).
        ?R (samples_full_fold_type s ! i) (target_full_fold_type s ! i)
           (feat_targ_full_fold_type s ! i)"
    unfolding full using same_case_present [OF assms] by simp
  have ok: "folds_ok s" by (rule index_cases_folds_ok [OF s])
  then have len: "length (sam_folds s) = 5" "length (tar_folds s) = 5" "length (feat_folds s) = 5"
    and fk: "\<And>k. k < 5 \<Longrightarrow> sam_folds s ! k = every_fifth k (samples_full_fold_type s)"
      "\<And>k. k < 5 \<Longrightarrow> tar_folds s ! k = every_fifth k (target_full_fold_type s)"
      "\<And>k. k < 5 \<Longrightarrow> feat_folds s ! k = every_fifth k (feat_targ_full_fold_type s)"
    by (simp_all add: folds_ok_def)
  have f: "\<forall>k<5. length (sam_folds s ! k) = length (feat_folds s ! k) \<and>
            length (tar_folds s ! k) = length (feat_folds s ! k) \<and>
            (\<forall>i<length (feat_folds s ! k).
               ?R (sam_folds s ! k ! i) (tar_folds s ! k ! i) (feat_folds s ! k ! i))"
  proof (intro allI impI)
    fix k :: nat
    assume k: "k < 5"
    show "length (sam_folds s ! k) = length (feat_folds s ! k) \<and>
            length (tar_folds s ! k) = length (feat_folds s ! k) \<and>
            (\<forall>i<length (feat_folds s ! k).
               ?R (sam_folds s ! k ! i) (tar_folds s ! k ! i) (feat_folds s ! k ! i))"
      unfolding fk(1) [OF k] fk(2) [OF k] fk(3) [OF k]
      by (rule every_fifth_related [OF l1 l2 r])
  qed
  have w: "\<forall>params t_idx target_name out out'.
        write_target params t_idx target_name s out = Inr out' \<longrightarrow>
        (\<exists>fm tm.
           feature_samples_outfile out' = feature_samples_outfile out
             @ map2 (record_line fm t_idx target_name) fold_types
                 (samples_full_fold_type s # sam_folds s) \<and>
           target_samples_outfile out' = target_samples_outfile out
             @ map2 (record_line tm t_idx target_name) fold_types
                 (target_full_fold_type s # tar_folds s) \<and>
           feat_and_targ_samples_outfile out' = feat_and_targ_samples_outfile out
             @ map2 (record_line tm t_idx target_name) fold_types
                 (feat_targ_full_fold_type s # feat_folds s))"
    unfolding target_lines_zip [OF len(1), symmetric] target_lines_zip [OF len(2), symmetric]
      target_lines_zip [OF len(3), symmetric]
    by (auto simp: write_target_def split: sum.splits)
  from s l1 l2 r f w show ?thesis by blast
qed

text \<open>
  Case \<open>C\<close> occurs twice in the target-matrix case order: its target entry is its first
  position there.
\<close>

lemma parallel_lists_same_case_example:
  "(\<exists>s. index_cases [''A'', ''B'', ''C''] [''C'', ''B'', ''A'', ''C''] [''C'', ''A''] = Inr s \<and>
        samples_full_fold_type s = [''0'', ''2''] \<and>
        target_full_fold_type s = [''2'', ''0''] \<and>
        feat_targ_full_fold_type s = [''A'', ''C''] \<and>
        (\<forall>i<length (feat_targ_full_fold_type s).
           same_case [''A'', ''B'', ''C''] [''C'', ''B'', ''A'', ''C'']
             (samples_full_fold_type s ! i) (target_full_fold_type s ! i)
             (feat_targ_full_fold_type s ! i)))"
proof -
  have h: "\<forall>c\<in>set [''A'', ''B'', ''C'']. c \<in> set [''C'', ''A''] \<longrightarrow> c \<in> set [''C'', ''B'', ''A'', ''C'']"
    by simp
  have e: "index_cases [''A'', ''B'', ''C''] [''C'', ''B'', ''A'', ''C''] [''C'', ''A'']
        = Inr \<lparr>samples_full_fold_type = [''0'', ''2''],
               target_full_fold_type = [''2'', ''0''],
               feat_targ_full_fold_type = [''A'', ''C''],
               sam_folds = [[''0''], [''2''], [], [], []],
               tar_folds = [[''2''], [''0''], [], [], []],
               feat_folds = [[''A''], [''C''], [], [], []],
               count_v = 2\<rparr>"
    by code_simp
  from parallel_lists_same_case [OF h] obtain s where
    s: "index_cases [''A'', ''B'', ''C''] [''C'', ''B'', ''A'', ''C''] [''C'', ''A''] = Inr s"
    and r: "\<forall>i<length (feat_targ_full_fold_type s).
           same_case [''A'', ''B'', ''C''] [''C'', ''B'', ''A'', ''C'']
             (samples_full_fold_type s ! i) (target_full_fold_type s ! i)
             (feat_targ_full_fold_type s ! i)"
    by blast
  from s e have "samples_full_fold_type s = [''0'', ''2'']"
    "target_full_fold_type s = [''2'', ''0'']" "feat_targ_full_fold_type s = [''A'', ''C'']"
    by auto
  with s r show ?thesis by blast
qed

text \<open>
  Line 187 reads the unbound name \<^verbatim>\<open>parmas\<close>: the loop over the targets raises
  \<^verbatim>\<open>NameError\<close> at its first target, whatever the inputs.
\<close>

lemma targets_loop_name_error:
  "targets_loop params fs cor tcr (t # rest) out = Inl NameError"
  by (cases t) (simp add: lookup_name_def)

text \<open>So the function returns only when there is no target, with the three header lines.\<close>

lemma returns_only_without_targets:
  assumes "determine_feature_matrix_and_target_matrix_rows params fs = Inr out"
  shows "load_param_list params fs ''target_feature_columns_file'' = Inr [] \<and> out = header_files"
proof -
  from assms obtain cor tcr tfc where
    l: "load_param_list params fs ''target_feature_columns_file'' = Inr tfc"
    and t: "targets_loop params fs cor tcr (enumerate 0 tfc) header_files = Inr out"
    unfolding determine_feature_matrix_and_target_matrix_rows_def
    by (auto split: sum.splits)
  have "tfc = []"
  proof (cases tfc)
    case Nil
    then show ?thesis .
  next
    case (Cons a as)
    with t targets_loop_name_error [of params fs cor tcr "(0, a)" "enumerate (Suc 0) as" header_files]
    show ?thesis by simp
  qed
  with l t show ?thesis by simp
qed

text \<open>
  In the scenario of the specification the item-presence scan and the loop over the
  case order, run by themselves, give the present cases \<open>A\<close>, \<open>C\<close>, \<open>D\<close> and the
  feature-row indices \<open>0\<close>, \<open>2\<close>, \<open>3\<close>.
\<close>

lemma fever_scenario_lists:
  "load_target_present_rows fever_fs ''items_present-labeling.txt'' ''fever''
     = Inr [''A'', ''C'', ''D'']"
  "index_cases [''A'', ''B'', ''C'', ''D'', ''E''] [''A'', ''B'', ''C'', ''D'', ''E'']
     [''A'', ''C'', ''D'']
   = Inr \<lparr>samples_full_fold_type = [''0'', ''2'', ''3''],
          target_full_fold_type = [''0'', ''2'', ''3''],
          feat_targ_full_fold_type = [''A'', ''C'', ''D''],
          sam_folds = [[''0''], [''2''], [''3''], [], []],
          tar_folds = [[''0''], [''2''], [''3''], [], []],
          feat_folds = [[''A''], [''C''], [''D''], [], []],
          count_v = 3\<rparr>"
  unfolding fever_fs_def fever_table_def nl_def by code_simp+

text \<open>
  Claim C1. The Sample Indexer's \<open>full\<close> record of a target holds the feature-matrix row
  indices of the cases marked present, \<open>[0, 2, 3]\<close> in the scenario with target
  \<open>fever\<close>. On the code the function raises \<^verbatim>\<open>NameError\<close> in that scenario before
  any record is written.
\<close>

theorem fever_scenario_name_error:
  "determine_feature_matrix_and_target_matrix_rows fever_params fever_fs = Inl NameError"
  unfolding fever_params_def fever_fs_def fever_table_def nl_def by code_simp

text \<open>
  Lines 188-214 run by themselves on the three-case scenario: the six records each file
  would receive.
\<close>

lemma target_records_example:
  "map_sum id feature_samples_outfile
     (target_records fever_params [''A'', ''B'', ''C''] [''C'', ''B'', ''A'', ''C''] 0 ''fever''
        [''C'', ''A''] header_files)
     = Inr [''#feature_matrix_name, target_id, target_name, fold_type, row_indices'' @ nl,
            ''full_labeling_'' @ tab @ ''0'' @ tab @ ''fever'' @ tab @ ''full'' @ tab @ ''0'' @ tab @ ''2'' @ nl,
            ''full_labeling_'' @ tab @ ''0'' @ tab @ ''fever'' @ tab @ ''0'' @ tab @ ''0'' @ nl,
            ''full_labeling_'' @ tab @ ''0'' @ tab @ ''fever'' @ tab @ ''1'' @ tab @ ''2'' @ nl,
            ''full_labeling_'' @ tab @ ''0'' @ tab @ ''fever'' @ tab @ ''2'' @ tab @ nl,
            ''full_labeling_'' @ tab @ ''0'' @ tab @ ''fever'' @ tab @ ''3'' @ tab @ nl,
            ''full_labeling_'' @ tab @ ''0'' @ tab @ ''fever'' @ tab @ ''4'' @ tab @ nl]"
  "map_sum id target_samples_outfile
     (target_records fever_params [''A'', ''B'', ''C''] [''C'', ''B'', ''A'', ''C''] 0 ''fever''
        [''C'', ''A''] header_files)
     = Inr [''#target_matrix_name, target_id, target_name, fold_type, row_indices'' @ nl,
            ''target_full_matrix'' @ tab @ ''0'' @ tab @ ''fever'' @ tab @ ''full'' @ tab @ ''2'' @ tab @ ''0'' @ nl,
            ''target_full_matrix'' @ tab @ ''0'' @ tab @ ''fever'' @ tab @ ''0'' @ tab @ ''2'' @ nl,
            ''target_full_matrix'' @ tab @ ''0'' @ tab @ ''fever'' @ tab @ ''1'' @ tab @ ''0'' @ nl,
            ''target_full_matrix'' @ tab @ ''0'' @ tab @ ''fever'' @ tab @ ''2'' @ tab @ nl,
            ''target_full_matrix'' @ tab @ ''0'' @ tab @ ''fever'' @ tab @ ''3'' @ tab @ nl,
            ''target_full_matrix'' @ tab @ ''0'' @ tab @ ''fever'' @ tab @ ''4'' @ tab @ nl]"
  "map_sum id feat_and_targ_samples_outfile
     (target_records fever_params [''A'', ''B'', ''C''] [''C'', ''B'', ''A'', ''C''] 0 ''fever''
        [''C'', ''A''] header_files)
     = Inr [''#target_matrix_name, target_id, target_name, fold_type, case_ids'' @ nl,
            ''target_full_matrix'' @ tab @ ''0'' @ tab @ ''fever'' @ tab @ ''full'' @ tab @ ''A'' @ tab @ ''C'' @ nl,
            ''target_full_matrix'' @ tab @ ''0'' @ tab @ ''fever'' @ tab @ ''0'' @ tab @ ''A'' @ nl,
            ''target_full_matrix'' @ tab @ ''0'' @ tab @ ''fever'' @ tab @ ''1'' @ tab @ ''C'' @ nl,
            ''target_full_matrix'' @ tab @ ''0'' @ tab @ ''fever'' @ tab @ ''2'' @ tab @ nl,
            ''target_full_matrix'' @ tab @ ''0'' @ tab @ ''fever'' @ tab @ ''3'' @ tab @ nl,
            ''target_full_matrix'' @ tab @ ''0'' @ tab @ ''fever'' @ tab @ ''4'' @ tab @ nl]"
  by code_simp+

text \<open>
  Claim C4. The five per-fold index lists the Sample Indexer emits for a target hold
  together exactly the entries of its \<open>full\<close> list, the \<open>j\<close>-th present case in fold
  \<open>j mod 5\<close>. On the code the function emits no list: with seven cases, six of them
  present for the target, it raises \<^verbatim>\<open>NameError\<close> at line 187 before the loop that
  fills the folds.
\<close>

theorem seven_cases_name_error:
  "determine_feature_matrix_and_target_matrix_rows fever_params seven_cases_fs = Inl NameError"
  unfolding fever_params_def seven_cases_fs_def nl_def by code_simp

text \<open>
  Claim C5. The feature-row, target-row and case-id outputs of the Sample Indexer have
  the same records in the same order and refer position by position to the same case.
  On the code the function writes no record to any of the three files: with case order
  \<open>A, B, C\<close> and target-matrix case order \<open>C, B, A, C\<close> it raises \<^verbatim>\<open>NameError\<close> at
  line 187 before the loop and the writes.
\<close>

theorem reordered_name_error:
  "determine_feature_matrix_and_target_matrix_rows fever_params reordered_fs = Inl NameError"
  unfolding fever_params_def reordered_fs_def nl_def by code_simp

subsection \<open>Dictionaries\<close>

lemma map_of_dict_set: "map_of (dict_set d k v) = (map_of d)(k \<mapsto> v)"
proof (cases "k \<in> set (map fst d)")
  case False
  then have "map_of d k = None" by (simp add: map_of_eq_None_iff)
  then show ?thesis using False
    by (auto simp: dict_set_def map_add_def fun_eq_iff split: option.splits)
next
  case True
  have "map_of (map (\<lambda>(k', v'). if k' = k then (k', v) else (k', v')) d) k'
        = (if k' = k then (if k \<in> set (map fst d) then Some v else None) else map_of d k')" for k'
    by (induction d) (auto simp: rev_image_eqI)
  with True show ?thesis by (auto simp: dict_set_def fun_eq_iff)
qed

lemma dict_get_dict_set:
  "dict_get (dict_set d k v) k' = (if k' = k then Inr v else dict_get d k')"
  by (simp add: dict_get_def map_of_dict_set)

lemma dict_get_key: "k \<in> set (keys d) \<Longrightarrow> dict_get d k = Inr (the (map_of d k))"
  by (auto simp: dict_get_def keys_def map_of_eq_None_iff split: option.splits)

subsection \<open>Inverse sample lists\<close>

lemma inverse_inner_filter:
  "dict_get samples model_key = Inr fold_samples \<Longrightarrow>
   inverse_inner samples model_key xs acc = Inr (acc @ filter (\<lambda>x. x \<notin> set fold_samples) xs)"
  by (induction xs arbitrary: acc) auto

lemma inverse_loop_step:
  assumes "keys_ok fs ts (k # ks)"
  shows "inverse_loop fs ts (k # ks) (a, b) =
         inverse_loop fs ts ks (dict_set a k (inverse_of fs k), dict_set b k (inverse_of ts k))"
proof (cases "contains ''_full'' k")
  case True
  with assms show ?thesis
    by (simp add: keys_ok_def dict_get_key inverse_of_def)
next
  case False
  with assms show ?thesis
    by (simp add: keys_ok_def dict_get_key inverse_of_def inverse_inner_filter)
qed

lemma inverse_loop_result:
  assumes "keys_ok fs ts ks"
  shows "\<exists>a' b'. inverse_loop fs ts ks (a, b) = Inr (a', b') \<and>
     (\<forall>k. dict_get a' k = (if k \<in> set ks then Inr (inverse_of fs k) else dict_get a k)) \<and>
     (\<forall>k. dict_get b' k = (if k \<in> set ks then Inr (inverse_of ts k) else dict_get b k))"
  using assms
proof (induction ks arbitrary: a b)
  case Nil
  then show ?case by simp
next
  case (Cons k ks)
  from Cons.prems have ok: "keys_ok fs ts ks" by (simp add: keys_ok_def)
  from Cons.IH [OF ok, of "dict_set a k (inverse_of fs k)" "dict_set b k (inverse_of ts k)"]
  obtain a' b' where
    r: "inverse_loop fs ts ks (dict_set a k (inverse_of fs k), dict_set b k (inverse_of ts k))
          = Inr (a', b')"
    and f: "\<forall>k'. dict_get a' k' = (if k' \<in> set ks then Inr (inverse_of fs k')
              else dict_get (dict_set a k (inverse_of fs k)) k')"
    and t: "\<forall>k'. dict_get b' k' = (if k' \<in> set ks then Inr (inverse_of ts k')
              else dict_get (dict_set b k (inverse_of ts k)) k')"
    by blast
  have "inverse_loop fs ts (k # ks) (a, b) = Inr (a', b')"
    using inverse_loop_step [OF Cons.prems] r by simp
  moreover have "\<forall>k'. dict_get a' k' = (if k' \<in> set (k # ks) then Inr (inverse_of fs k') else dict_get a k')"
    using f by (simp add: dict_get_dict_set)
  moreover have "\<forall>k'. dict_get b' k' = (if k' \<in> set (k # ks) then Inr (inverse_of ts k') else dict_get b k')"
    using t by (simp add: dict_get_dict_set)
  ultimately show ?case by blast
qed

subsection \<open>Choosing the model type\<close>

lemma foldl_max:
  "foldl (\<lambda>max_item item. if max_item < item then item else max_item) x xs = Max (set (x # xs))"
proof -
  have "(\<lambda>max_item item. if max_item < item then item else max_item) = (\<lambda>m y::'a. max y m)"
    by (auto simp: fun_eq_iff max_def)
  then have "foldl (\<lambda>max_item item. if max_item < item then item else max_item) x xs = fold max xs x"
    by (simp add: foldl_conv_fold)
  then show ?thesis by (simp only: Max.set_eq_fold)
qed

lemma py_max_Max: "xs \<noteq> [] \<Longrightarrow> py_max xs = Inr (Max (set xs))"
  by (cases xs) (simp_all add: foldl_max del: set_simps)

lemma model_type_of_combinations: "i < 6 \<Longrightarrow> model_type_of i = Inr (combinations ! i)"
proof -
  assume "i < 6"
  then have "i \<in> set [0..<6]" by simp
  also have "[0..<6] = [0, 1, 2, 3, 4, 5::nat]" by (simp add: upt_rec)
  finally show ?thesis by (auto simp: model_type_of_def combinations_def)
qed

lemma first_maximum:
  fixes xs :: "'a::linorder list"
  assumes "xs \<noteq> []"
  shows "first_pos xs (Max (set xs)) < length xs"
    and "xs ! first_pos xs (Max (set xs)) = Max (set xs)"
    and "\<forall>j<length xs. xs ! j \<le> xs ! first_pos xs (Max (set xs))"
    and "\<forall>j<first_pos xs (Max (set xs)). xs ! j < xs ! first_pos xs (Max (set xs))"
proof -
  let ?m = "Max (set xs)"
  let ?i = "first_pos xs ?m"
  have mem: "?m \<in> set xs" using assms by (intro Max_in) simp_all
  show i: "?i < length xs" by (rule first_pos_less [OF mem])
  show at: "xs ! ?i = ?m" by (rule first_pos_nth [OF mem])
  have ge: "xs ! j \<le> ?m" if "j < length xs" for j
    using that by (intro Max_ge) simp_all
  then show "\<forall>j<length xs. xs ! j \<le> xs ! ?i" unfolding at by blast
  show "\<forall>j<?i. xs ! j < xs ! ?i"
  proof (intro allI impI)
    fix j assume j: "j < ?i"
    with i have "xs ! j \<le> ?m" by (intro ge) simp
    moreover have "xs ! j \<noteq> ?m" by (rule first_pos_first [OF j])
    ultimately show "xs ! j < xs ! ?i" unfolding at by (rule le_neq_trans)
  qed
qed

lemma select_index:
  fixes xs :: "'a::linorder list"
  assumes "xs \<noteq> []"
  shows "py_max xs = Inr (Max (set xs))"
    and "list_index xs (Max (set xs)) = Inr (first_pos xs (Max (set xs)))"
proof -
  show "py_max xs = Inr (Max (set xs))" by (rule py_max_Max [OF assms])
  have "Max (set xs) \<in> set xs" using assms by (intro Max_in) simp_all
  then show "list_index xs (Max (set xs)) = Inr (first_pos xs (Max (set xs)))"
    by (simp only: list_index_first_pos if_True)
qed

subsection \<open>Lines of the feature-selection result files\<close>

lemma split_no_sep: "sep \<notin> set s \<Longrightarrow> split sep s = [s]"
  by (induction s) auto

lemma split_append: "sep \<notin> set a \<Longrightarrow> split sep (a @ sep # b) = a # split sep b"
  by (induction a) auto

lemma split_join:
  "xs \<noteq> [] \<Longrightarrow> \<forall>x\<in>set xs. sep \<notin> set x \<Longrightarrow> split sep (join [sep] xs) = xs"
proof (induction xs)
  case Nil
  then show ?case by simp
next
  case (Cons x xs)
  show ?case
  proof (cases xs)
    case Nil
    with Cons.prems show ?thesis by (simp add: split_no_sep)
  next
    case (Cons y ys)
    with Cons.prems Cons.IH show ?thesis by (simp add: split_append)
  qed
qed

lemma join_nonempty: "xs \<noteq> [] \<Longrightarrow> \<forall>x\<in>set xs. x \<noteq> [] \<Longrightarrow> join sep xs \<noteq> []"
  by (induction sep xs rule: join.induct) auto

lemma set_join: "set (join sep xs) \<subseteq> set sep \<union> \<Union> (set ` set xs)"
  by (induction sep xs rule: join.induct) auto

lemma int_list_str_nat: "int_list (map str_nat ns) = Inr (map int ns)"
  by (induction ns) (simp_all add: py_int_str_nat)

lemma indices_no_colon: "CHR '':'' \<notin> set (join '','' (map str_nat ns))"
proof
  assume "CHR '':'' \<in> set (join '','' (map str_nat ns))"
  with set_join [of "'',''" "map str_nat ns"]
  have "CHR '':'' \<in> \<Union> (set ` set (map str_nat ns))" by auto
  then obtain n where "CHR '':'' \<in> set (str_nat n)" by auto
  then show False using str_nat_digits is_digit_not_special by blast
qed

lemma split_indices:
  "ns \<noteq> [] \<Longrightarrow> split CHR '','' (join '','' (map str_nat ns)) = map str_nat ns"
proof -
  assume ne: "ns \<noteq> []"
  have "\<forall>x\<in>set (map str_nat ns). CHR '','' \<notin> set x"
    using str_nat_digits is_digit_not_special by fastforce
  with ne show ?thesis using split_join [of "map str_nat ns" "CHR '',''"] by simp
qed

lemma split_selection_line:
  "CHR '':'' \<notin> set model_type \<Longrightarrow>
   split CHR '':'' (selection_line model_type ns) = [model_type, join '','' (map str_nat ns)]"
  by (simp add: selection_line_def split_append split_no_sep [OF indices_no_colon])

lemma selection_row_step:
  assumes "CHR '':'' \<notin> set model_type"
  shows "selection_rows_loop imp (selection_line model_type ns # file_rows) feature_dir =
         selection_rows_loop imp file_rows
           (dict_set feature_dir (model_type @ imp) (stored_indices ns))"
proof (cases "ns = []")
  case True
  then show ?thesis
    by (simp add: split_selection_line [OF assms] stored_indices_def)
next
  case False
  then have "join '','' (map str_nat ns) \<noteq> []"
    by (intro join_nonempty) (auto simp: str_nat_nonempty)
  with False show ?thesis
    by (simp add: split_selection_line [OF assms] stored_indices_def split_indices
        int_list_str_nat)
qed

lemma selection_rows_loop_entries:
  assumes "\<forall>(model_type, ns)\<in>set ps. CHR '':'' \<notin> set model_type"
  shows "\<exists>d'. selection_rows_loop imp (map (\<lambda>(model_type, ns). selection_line model_type ns) ps) d
               = Inr d' \<and>
              map_of d' = map_of d ++ map_of (rev (stored_entries imp ps))"
  using assms
proof (induction ps arbitrary: d)
  case Nil
  then show ?case by (simp add: stored_entries_def)
next
  case (Cons p ps)
  obtain model_type ns where p: "p = (model_type, ns)" by (cases p)
  from Cons.prems p have c: "CHR '':'' \<notin> set model_type"
    and rest: "\<forall>(model_type, ns)\<in>set ps. CHR '':'' \<notin> set model_type" by auto
  from Cons.IH [OF rest, of "dict_set d (model_type @ imp) (stored_indices ns)"]
  obtain d' where
    r: "selection_rows_loop imp (map (\<lambda>(model_type, ns). selection_line model_type ns) ps)
          (dict_set d (model_type @ imp) (stored_indices ns)) = Inr d'"
    and m: "map_of d' = map_of (dict_set d (model_type @ imp) (stored_indices ns))
              ++ map_of (rev (stored_entries imp ps))"
    by blast
  have e: "map_of d' = map_of d ++ map_of (rev (stored_entries imp (p # ps)))"
    unfolding m map_of_dict_set p
    by (simp add: stored_entries_def fun_eq_iff map_add_def split: option.splits)
  have "selection_rows_loop imp (map (\<lambda>(model_type, ns). selection_line model_type ns) (p # ps)) d
          = Inr d'"
    using selection_row_step [OF c, of imp ns] r by (simp add: p del: selection_rows_loop.simps)
  with e show ?case by blast
qed

lemma map_of_unique:
  assumes "(k, v) \<in> set xs" and "\<forall>v'. (k, v') \<in> set xs \<longrightarrow> v' = v"
  shows "map_of xs k = Some v"
proof (cases "map_of xs k")
  case None
  with assms(1) show ?thesis by (auto simp: map_of_eq_None_iff intro: rev_image_eqI)
next
  case (Some v')
  then have "(k, v') \<in> set xs" by (rule map_of_SomeD)
  with assms(2) Some show ?thesis by simp
qed

lemma stored_entries_key:
  "(model_type @ imp, v) \<in> set (stored_entries imp ps) \<longleftrightarrow>
   (\<exists>ns. (model_type, ns) \<in> set ps \<and> v = stored_indices ns)"
  by (auto simp: stored_entries_def)

lemma stored_entries_other:
  assumes "last imp \<noteq> last imp'" and "imp \<noteq> []" and "imp' \<noteq> []"
  shows "map_of (rev (stored_entries imp' ps)) (model_type @ imp) = None"
proof -
  have ne: "model_type @ imp \<noteq> mt @ imp'" for mt
  proof
    assume "model_type @ imp = mt @ imp'"
    then have "last (model_type @ imp) = last (mt @ imp')" by simp
    with assms show False by simp
  qed
  have "model_type @ imp \<notin> fst ` set (stored_entries imp' ps)"
  proof
    assume "model_type @ imp \<in> fst ` set (stored_entries imp' ps)"
    then obtain mt where "model_type @ imp = mt @ imp'"
      by (auto simp: stored_entries_def)
    with ne show False by blast
  qed
  then show ?thesis by (simp add: map_of_eq_None_iff)
qed

lemma stored_entries_unique:
  assumes "(model_type, ns) \<in> set ps" and "\<forall>ns'. (model_type, ns') \<in> set ps \<longrightarrow> ns' = ns"
  shows "map_of (rev (stored_entries imp ps)) (model_type @ imp) = Some (stored_indices ns)"
proof (rule map_of_unique)
  show "(model_type @ imp, stored_indices ns) \<in> set (rev (stored_entries imp ps))"
    using assms(1) stored_entries_key [of model_type imp "stored_indices ns" ps] by auto
  show "\<forall>v'. (model_type @ imp, v') \<in> set (rev (stored_entries imp ps)) \<longrightarrow> v' = stored_indices ns"
  proof (intro allI impI)
    fix v' assume "(model_type @ imp, v') \<in> set (rev (stored_entries imp ps))"
    then obtain ns' where "(model_type, ns') \<in> set ps" "v' = stored_indices ns'"
      using stored_entries_key [of model_type imp v' ps] by auto
    with assms(2) show "v' = stored_indices ns" by blast
  qed
qed

subsection \<open>Keys of the sample records\<close>

text \<open>
  The keys the indexer writes are \<open>t_full\<close> and \<open>t_0\<close>, ..., \<open>t_4\<close> for a target index
  \<open>t\<close>: the first contains \<open>_full\<close>, the others do not, and the full key of each is
  \<open>t_full\<close>.
\<close>

lemma contains_skip: "\<forall>c\<in>set ds. c \<noteq> a \<Longrightarrow> contains (a # w) (ds @ rest) = contains (a # w) rest"
  by (induction ds) auto

lemma str_nat_no_underscore: "\<forall>c\<in>set (str_nat n). c \<noteq> CHR ''_''"
  using str_nat_digits is_digit_not_special by blast

lemma contains_skip_str_nat:
  "contains (CHR ''_'' # w) (str_nat n @ rest) = contains (CHR ''_'' # w) rest"
  by (rule contains_skip) (rule str_nat_no_underscore)

lemma indexer_keys:
  shows "full_key (str_nat t @ ''_'' @ fold_type) = str_nat t @ ''_full''"
    and "contains ''_full'' (str_nat t @ ''_'' @ ''full'')"
    and "\<not> contains ''_full'' (str_nat t @ ''_'' @ str_nat f)"
proof -
  have "CHR ''_'' \<notin> set (str_nat t)" using str_nat_no_underscore by blast
  then show "full_key (str_nat t @ ''_'' @ fold_type) = str_nat t @ ''_full''"
    by (simp add: full_key_def split_append)
  show "contains ''_full'' (str_nat t @ ''_'' @ ''full'')"
    by (simp add: contains_skip_str_nat)
  obtain d ds where f: "str_nat f = d # ds"
    using str_nat_nonempty [of f] by (cases "str_nat f") auto
  then have "is_digit d" using str_nat_digits [of d f] by simp
  then have d: "d \<noteq> CHR ''f''" by (auto simp: is_digit_def digits_def)
  have "\<not> contains ''_full'' (str_nat f)"
    using contains_skip_str_nat [of "''full''" f "[]"] by simp
  with d f have "\<not> contains (CHR ''_'' # ''full'') (''_'' @ str_nat f)" by simp
  then show "\<not> contains ''_full'' (str_nat t @ ''_'' @ str_nat f)"
    by (simp only: contains_skip_str_nat simp_thms)
qed

subsection \<open>Claims about feature selection and model training\<close>

text \<open>
  Claim C7. In \<^verbatim>\<open>run_feature_selection\<close>, when every model key is a key of both
  sample dictionaries and so is the full key of every key without \<open>_full\<close>, the loop
  returns, and for every model key: if the key has \<open>_full\<close>, its inverse lists are
  the key's own lists; otherwise its inverse list is the list of the target's full key
  without the entries that occur in the key's own list, in the order of the full list.
\<close>

theorem inverse_samples_lists:
  assumes "keys_ok feature_samples target_samples (keys target_samples)"
  shows "\<exists>inverse_feature_samples inverse_target_samples.
     inverse_samples feature_samples target_samples
       = Inr (inverse_feature_samples, inverse_target_samples) \<and>
     (\<forall>k\<in>set (keys target_samples).
        \<exists>f_fold t_fold.
          dict_get feature_samples k = Inr f_fold \<and> dict_get target_samples k = Inr t_fold \<and>
          (if contains ''_full'' k then
             dict_get inverse_feature_samples k = Inr f_fold \<and>
             dict_get inverse_target_samples k = Inr t_fold
           else
             \<exists>f_full t_full.
               dict_get feature_samples (full_key k) = Inr f_full \<and>
               dict_get target_samples (full_key k) = Inr t_full \<and>
               dict_get inverse_feature_samples k = Inr (filter (\<lambda>x. x \<notin> set f_fold) f_full) \<and>
               dict_get inverse_target_samples k = Inr (filter (\<lambda>x. x \<notin> set t_fold) t_full)))"
proof -
  from inverse_loop_result [OF assms, of "[]" "[]"] obtain a' b' where
    r: "inverse_samples feature_samples target_samples = Inr (a', b')"
    and f: "\<And>k. k \<in> set (keys target_samples) \<Longrightarrow> dict_get a' k = Inr (inverse_of feature_samples k)"
    and t: "\<And>k. k \<in> set (keys target_samples) \<Longrightarrow> dict_get b' k = Inr (inverse_of target_samples k)"
    unfolding inverse_samples_def by auto
  have "\<exists>f_fold t_fold.
          dict_get feature_samples k = Inr f_fold \<and> dict_get target_samples k = Inr t_fold \<and>
          (if contains ''_full'' k then
             dict_get a' k = Inr f_fold \<and> dict_get b' k = Inr t_fold
           else
             \<exists>f_full t_full.
               dict_get feature_samples (full_key k) = Inr f_full \<and>
               dict_get target_samples (full_key k) = Inr t_full \<and>
               dict_get a' k = Inr (filter (\<lambda>x. x \<notin> set f_fold) f_full) \<and>
               dict_get b' k = Inr (filter (\<lambda>x. x \<notin> set t_fold) t_full))"
    if k: "k \<in> set (keys target_samples)" for k
  proof -
    from assms k have kf: "k \<in> set (keys feature_samples)"
      and full: "\<not> contains ''_full'' k \<Longrightarrow>
         full_key k \<in> set (keys feature_samples) \<and> full_key k \<in> set (keys target_samples)"
      by (auto simp: keys_ok_def)
    show ?thesis
    proof (cases "contains ''_full'' k")
      case True
      with f [OF k] t [OF k] dict_get_key [OF kf] dict_get_key [OF k] show ?thesis
        by (simp add: inverse_of_def)
    next
      case False
      with full have "full_key k \<in> set (keys feature_samples)"
        "full_key k \<in> set (keys target_samples)" by simp_all
      with False f [OF k] t [OF k] dict_get_key [OF kf] dict_get_key [OF k] show ?thesis
        by (simp add: inverse_of_def dict_get_key)
    qed
  qed
  with r show ?thesis by blast
qed

text \<open>
  One target with six present cases: the inverse of fold \<open>0\<close> is the full list without
  the two entries of the fold.
\<close>

theorem inverse_samples_lists_witness:
  "\<exists>inverse_feature_samples inverse_target_samples.
     inverse_samples example_feature_samples example_target_samples
       = Inr (inverse_feature_samples, inverse_target_samples) \<and>
     dict_get inverse_feature_samples ''0_full'' = Inr [0, 2, 3, 5, 7, 9] \<and>
     dict_get inverse_target_samples ''0_full'' = Inr [4, 1, 0, 2, 8, 6] \<and>
     dict_get inverse_feature_samples ''0_0'' = Inr [2, 3, 5, 7] \<and>
     dict_get inverse_target_samples ''0_0'' = Inr [1, 0, 2, 8]"
proof -
  have ok: "keys_ok example_feature_samples example_target_samples (keys example_target_samples)"
    by (simp add: example_feature_samples_def example_target_samples_def keys_ok_def keys_def
        full_key_def)
  from inverse_samples_lists [OF ok] obtain a b where
    r: "inverse_samples example_feature_samples example_target_samples = Inr (a, b)"
    and p: "\<And>k. k \<in> set (keys example_target_samples) \<Longrightarrow>
        \<exists>f_fold t_fold.
          dict_get example_feature_samples k = Inr f_fold \<and>
          dict_get example_target_samples k = Inr t_fold \<and>
          (if contains ''_full'' k then
             dict_get a k = Inr f_fold \<and> dict_get b k = Inr t_fold
           else
             \<exists>f_full t_full.
               dict_get example_feature_samples (full_key k) = Inr f_full \<and>
               dict_get example_target_samples (full_key k) = Inr t_full \<and>
               dict_get a k = Inr (filter (\<lambda>x. x \<notin> set f_fold) f_full) \<and>
               dict_get b k = Inr (filter (\<lambda>x. x \<notin> set t_fold) t_full))"
    by blast
  have "dict_get a ''0_full'' = Inr [0, 2, 3, 5, 7, 9] \<and> dict_get b ''0_full'' = Inr [4, 1, 0, 2, 8, 6]"
    using p [of "''0_full''"]
    by (simp add: example_feature_samples_def example_target_samples_def keys_def dict_get_def)
  moreover
  have "dict_get a ''0_0'' = Inr [2, 3, 5, 7] \<and> dict_get b ''0_0'' = Inr [1, 0, 2, 8]"
    using p [of "''0_0''"]
    by (simp add: example_feature_samples_def example_target_samples_def keys_def dict_get_def
        full_key_def)
  ultimately show ?thesis using r by blast
qed

text \<open>
  Claim C8. From six mean scores the trainer selects a combination whose score is the
  largest of the six, and among equal largest scores the one of lowest index in the
  order \<open>lr-m\<close>, \<open>sv-m\<close>, \<open>rf-m\<close>, \<open>lr-r\<close>, \<open>sv-r\<close>, \<open>rf-r\<close>: every score before
  the selected index is strictly smaller.
\<close>

theorem select_model_first_maximum:
  "\<exists>i<6. select_model lr_m sv_m rf_m lr_r sv_r rf_r
            = Inr (combinations ! i, i, [lr_m, sv_m, rf_m, lr_r, sv_r, rf_r] ! i) \<and>
          (\<forall>j<6. [lr_m, sv_m, rf_m, lr_r, sv_r, rf_r] ! j \<le> [lr_m, sv_m, rf_m, lr_r, sv_r, rf_r] ! i) \<and>
          (\<forall>j<i. [lr_m, sv_m, rf_m, lr_r, sv_r, rf_r] ! j < [lr_m, sv_m, rf_m, lr_r, sv_r, rf_r] ! i)"
proof -
  define scores where "scores = [lr_m, sv_m, rf_m, lr_r, sv_r, rf_r]"
  define i where "i = first_pos scores (Max (set scores))"
  have ne: "scores \<noteq> []" and len: "length scores = 6" by (simp_all add: scores_def)
  note fm = first_maximum [OF ne, folded i_def]
  note si = select_index [OF ne, folded i_def]
  have i6: "i < 6" using fm(1) len by simp
  have "select_model lr_m sv_m rf_m lr_r sv_r rf_r = Inr (combinations ! i, i, scores ! i)"
    unfolding select_model_def scores_def [symmetric] Let_def
    by (simp only: si sum.case model_type_of_combinations [OF i6] fm(2))
  moreover have "\<forall>j<6. scores ! j \<le> scores ! i" using fm(3) len by simp
  moreover note fm(4)
  ultimately have "i < 6 \<and> select_model lr_m sv_m rf_m lr_r sv_r rf_r
            = Inr (combinations ! i, i, scores ! i) \<and>
          (\<forall>j<6. scores ! j \<le> scores ! i) \<and> (\<forall>j<i. scores ! j < scores ! i)"
    using i6 by (intro conjI)
  then show ?thesis unfolding scores_def by (rule exI [of _ i])
qed

text \<open>Three combinations tie at the largest score: the first of them is selected.\<close>

theorem select_model_first_maximum_witness:
  "select_model (7::int) 9 8 9 3 9 = Inr (''sv-m'', 1, 9)"
proof -
  from select_model_first_maximum [of "7::int" 9 8 9 3 9] obtain i where
    i: "i < 6" and s: "select_model (7::int) 9 8 9 3 9 = Inr (combinations ! i, i, [7, 9, 8, 9, 3, 9] ! i)"
    and le: "\<forall>j<6. [7::int, 9, 8, 9, 3, 9] ! j \<le> [7, 9, 8, 9, 3, 9] ! i"
    and lt: "\<forall>j<i. [7::int, 9, 8, 9, 3, 9] ! j < [7, 9, 8, 9, 3, 9] ! i"
    by blast
  from i have "i \<in> set [0..<6]" by simp
  also have "[0..<6] = [0, 1, 2, 3, 4, 5::nat]" by (simp add: upt_rec)
  finally have c: "i = 0 \<or> i = 1 \<or> i = 2 \<or> i = 3 \<or> i = 4 \<or> i = 5" by simp
  from le [rule_format, of 1] have "[7::int, 9, 8, 9, 3, 9] ! 1 \<le> [7, 9, 8, 9, 3, 9] ! i" by simp
  with c have c': "i = 1 \<or> i = 3 \<or> i = 5" by auto
  have "i = 1"
  proof (rule ccontr)
    assume "i \<noteq> 1"
    with c' have "1 < i" by auto
    with lt [rule_format, of 1] have "[7::int, 9, 8, 9, 3, 9] ! 1 < [7, 9, 8, 9, 3, 9] ! i" by simp
    with c' show False by auto
  qed
  with s show ?thesis by (simp add: combinations_def)
qed

text \<open>
  Claim C9. When the rows of the two result files are lines
  \<open>model_type:comma_separated_column_indices\<close> (the index part possibly empty), the
  loader returns a dictionary that maps \<open>model_type-m\<close> (first file) and
  \<open>model_type-r\<close> (second file) to the parsed index list of the line when the index
  part is non-empty and to \<open>[0]\<close> when it is empty; among several lines of one model
  type in one file the last one is stored.
\<close>

theorem load_feature_selection_files_maps:
  assumes m: "load_list fs (prefilename @ ''-mImp.txt'')
                = Inr (map (\<lambda>(model_type, ns). selection_line model_type ns) ms)"
    and r: "load_list fs (prefilename @ ''-rImp.txt'')
                = Inr (map (\<lambda>(model_type, ns). selection_line model_type ns) rs)"
    and c: "\<forall>(model_type, ns)\<in>set ms \<union> set rs. CHR '':'' \<notin> set model_type"
  shows "\<exists>feature_dir.
     load_feature_selection_files fs prefilename = Inr feature_dir \<and>
     map_of feature_dir = map_of (rev (stored_entries ''-m'' ms @ stored_entries ''-r'' rs)) \<and>
     (\<forall>model_type ns. (model_type, ns) \<in> set ms \<longrightarrow>
        (\<forall>ns'. (model_type, ns') \<in> set ms \<longrightarrow> ns' = ns) \<longrightarrow>
        dict_get feature_dir (model_type @ ''-m'')
          = Inr (if ns = [] then [0] else map int ns)) \<and>
     (\<forall>model_type ns. (model_type, ns) \<in> set rs \<longrightarrow>
        (\<forall>ns'. (model_type, ns') \<in> set rs \<longrightarrow> ns' = ns) \<longrightarrow>
        dict_get feature_dir (model_type @ ''-r'')
          = Inr (if ns = [] then [0] else map int ns))"
proof -
  from c have cm: "\<forall>(model_type, ns)\<in>set ms. CHR '':'' \<notin> set model_type"
    and cr: "\<forall>(model_type, ns)\<in>set rs. CHR '':'' \<notin> set model_type" by auto
  from selection_rows_loop_entries [OF cm, of "''-m''" "[]"] obtain d1 where
    d1: "selection_rows_loop ''-m'' (map (\<lambda>(model_type, ns). selection_line model_type ns) ms) []
           = Inr d1"
    and m1: "map_of d1 = map_of (rev (stored_entries ''-m'' ms))" by auto
  from selection_rows_loop_entries [OF cr, of "''-r''" d1] obtain d2 where
    d2: "selection_rows_loop ''-r'' (map (\<lambda>(model_type, ns). selection_line model_type ns) rs) d1
           = Inr d2"
    and m2: "map_of d2 = map_of d1 ++ map_of (rev (stored_entries ''-r'' rs))" by auto
  have res: "load_feature_selection_files fs prefilename = Inr d2"
    by (simp add: load_feature_selection_files_def m r d1 d2)
  have mo: "map_of d2 = map_of (rev (stored_entries ''-m'' ms @ stored_entries ''-r'' rs))"
    by (simp add: m2 m1)
  have gm: "dict_get d2 (model_type @ ''-m'') = Inr (if ns = [] then [0] else map int ns)"
    if "(model_type, ns) \<in> set ms" "\<forall>ns'. (model_type, ns') \<in> set ms \<longrightarrow> ns' = ns"
    for model_type ns
  proof -
    have "map_of (rev (stored_entries ''-m'' ms)) (model_type @ ''-m'') = Some (stored_indices ns)"
      using that by (rule stored_entries_unique)
    moreover have "map_of (rev (stored_entries ''-r'' rs)) (model_type @ ''-m'') = None"
      by (rule stored_entries_other) simp_all
    ultimately show ?thesis
      by (simp add: dict_get_def m2 m1 map_add_def stored_indices_def)
  qed
  have gr: "dict_get d2 (model_type @ ''-r'') = Inr (if ns = [] then [0] else map int ns)"
    if "(model_type, ns) \<in> set rs" "\<forall>ns'. (model_type, ns') \<in> set rs \<longrightarrow> ns' = ns"
    for model_type ns
  proof -
    have "map_of (rev (stored_entries ''-r'' rs)) (model_type @ ''-r'') = Some (stored_indices ns)"
      using that by (rule stored_entries_unique)
    then show ?thesis
      by (simp add: dict_get_def m2 map_add_def stored_indices_def)
  qed
  show ?thesis
  proof (intro exI [of _ d2] conjI allI impI)
    show "load_feature_selection_files fs prefilename = Inr d2" by (rule res)
    show "map_of d2 = map_of (rev (stored_entries ''-m'' ms @ stored_entries ''-r'' rs))"
      by (rule mo)
  next
    fix model_type ns
    assume "(model_type, ns) \<in> set ms" "\<forall>ns'. (model_type, ns') \<in> set ms \<longrightarrow> ns' = ns"
    then show "dict_get d2 (model_type @ ''-m'') = Inr (if ns = [] then [0] else map int ns)"
      by (rule gm)
  next
    fix model_type ns
    assume "(model_type, ns) \<in> set rs" "\<forall>ns'. (model_type, ns') \<in> set rs \<longrightarrow> ns' = ns"
    then show "dict_get d2 (model_type @ ''-r'') = Inr (if ns = [] then [0] else map int ns)"
      by (rule gr)
  qed
qed

text \<open>Two result files with an empty index part in each.\<close>

theorem load_feature_selection_files_maps_witness:
  "\<exists>feature_dir.
     load_feature_selection_files example_selection_fs ''0_full'' = Inr feature_dir \<and>
     dict_get feature_dir ''lr-m'' = Inr [3, 17] \<and>
     dict_get feature_dir ''sv-m'' = Inr [0] \<and>
     dict_get feature_dir ''sv-r'' = Inr [1, 2] \<and>
     dict_get feature_dir ''rf-r'' = Inr [0]"
proof -
  let ?ms = "[(''lr'', [3, 17]), (''sv'', []), (''rf'', [0::nat])]"
  let ?rs = "[(''lr'', [5]), (''sv'', [1, 2]), (''rf'', []::nat list)]"
  have m: "load_list example_selection_fs (''0_full'' @ ''-mImp.txt'')
             = Inr (map (\<lambda>(model_type, ns). selection_line model_type ns) ?ms)"
    unfolding example_selection_fs_def nl_def by code_simp
  have r: "load_list example_selection_fs (''0_full'' @ ''-rImp.txt'')
             = Inr (map (\<lambda>(model_type, ns). selection_line model_type ns) ?rs)"
    unfolding example_selection_fs_def nl_def by code_simp
  have c: "\<forall>(model_type, ns)\<in>set ?ms \<union> set ?rs. CHR '':'' \<notin> set model_type"
    by simp
  from load_feature_selection_files_maps [OF m r c] obtain d where
    l: "load_feature_selection_files example_selection_fs ''0_full'' = Inr d"
    and gm: "\<And>model_type ns. (model_type, ns) \<in> set ?ms \<Longrightarrow>
        (\<forall>ns'. (model_type, ns') \<in> set ?ms \<longrightarrow> ns' = ns) \<Longrightarrow>
        dict_get d (model_type @ ''-m'') = Inr (if ns = [] then [0] else map int ns)"
    and gr: "\<And>model_type ns. (model_type, ns) \<in> set ?rs \<Longrightarrow>
        (\<forall>ns'. (model_type, ns') \<in> set ?rs \<longrightarrow> ns' = ns) \<Longrightarrow>
        dict_get d (model_type @ ''-r'') = Inr (if ns = [] then [0] else map int ns)"
    by blast
  have "dict_get d ''lr-m'' = Inr [3, 17]" using gm [of "''lr''" "[3, 17]"] by simp
  moreover have "dict_get d ''sv-m'' = Inr [0]" using gm [of "''sv''" "[]"] by simp
  moreover have "dict_get d ''sv-r'' = Inr [1, 2]" using gr [of "''sv''" "[1, 2]"] by simp
  moreover have "dict_get d ''rf-r'' = Inr [0]" using gr [of "''rf''" "[]"] by simp
  ultimately show ?thesis using l by blast
qed

subsection \<open>The assembling loops\<close>




lemma assembledI: "length rows = r \<Longrightarrow> length ns = c \<Longrightarrow> assembled r (Array (Arr2 c rows), Names ns)"
  by (simp add: assembled_def)










subsection \<open>Column matching\<close>

lemma match_loop_raises:
  "match_loop full_names (curr_feature_name # rest) new_indicies column_index_result
     = Inl IndexError"
  by (cases full_names) (simp_all add: list_get_def)

lemma column_match_never_returns:
  assumes "feature_columns_to_match \<noteq> []"
  shows "assemble_feature_matrix dir feature_types_to_include additional_features
           feature_columns_to_match \<noteq> Inr result"
proof -
  from assms obtain c cs where m: "feature_columns_to_match = c # cs"
    by (cases feature_columns_to_match) auto
  show ?thesis
    unfolding assemble_feature_matrix_def m
    by (simp add: match_loop_raises split: sum.splits prod.splits del: match_loop.simps)
qed

subsection \<open>Claims about the Matrix Assembler\<close>

text \<open>
  Claim C2. With a non-empty list of requested column names,
  \<^verbatim>\<open>assemble_feature_matrix\<close> selects the first matching column of each requested
  name, in the requested order, and skips unmatched names. On the code the request
  raises \<^verbatim>\<open>IndexError\<close>: \<^verbatim>\<open>np.where\<close> on the one-dimensional name array returns a
  tuple of length one, and line 117 reads its element 1. Here both requested names
  exist.
\<close>

theorem column_match_raises:
  "assemble_feature_matrix demo_directory [''demo''] [] [''y_a'', ''x_a''] = Inl IndexError"
  unfolding demo_directory_def by code_simp





end
